theory Spec2Isabelle
  imports Main "HOL-Library.Sublist"
begin

section \<open>Tokens\<close>

text \<open>
  The parser of \<^verbatim>\<open>cssselect2/parser.py\<close> reads component values produced by tinycss2.
  A token is modelled with exactly the attributes the parser reads: its \<^verbatim>\<open>type\<close> tag,
  \<^verbatim>\<open>value\<close> and \<^verbatim>\<open>lower_value\<close> of an ident, \<^verbatim>\<open>value\<close> and \<^verbatim>\<open>is_identifier\<close> of a hash,
  \<^verbatim>\<open>value\<close> of a string or a literal, \<^verbatim>\<open>content\<close> of a \<^verbatim>\<open>[] block\<close>, and \<^verbatim>\<open>name\<close>,
  \<^verbatim>\<open>lower_name\<close> and \<^verbatim>\<open>arguments\<close> of a function block. Every other kind of component
  value only shows its type tag to the parser.
\<close>

datatype other_type =
    AtKeywordToken | URLToken | UnicodeRangeToken | NumberToken | PercentageToken
  | DimensionToken | ParenthesesBlock | CurlyBracketsBlock | ParseError

datatype token =
    WhitespaceToken
  | Comment
  | LiteralToken string
  | IdentToken string string
  | HashToken string bool
  | StringToken string
  | SquareBracketsBlock "token list"
  | FunctionBlock string string "token list"
  | OtherToken other_type

fun other_type_name :: "other_type \<Rightarrow> string" where
  "other_type_name AtKeywordToken = ''at-keyword''"
| "other_type_name URLToken = ''url''"
| "other_type_name UnicodeRangeToken = ''unicode-range''"
| "other_type_name NumberToken = ''number''"
| "other_type_name PercentageToken = ''percentage''"
| "other_type_name DimensionToken = ''dimension''"
| "other_type_name ParenthesesBlock = ''() block''"
| "other_type_name CurlyBracketsBlock = ''{} block''"
| "other_type_name ParseError = ''error''"

fun token_type :: "token \<Rightarrow> string" where
  "token_type WhitespaceToken = ''whitespace''"
| "token_type Comment = ''comment''"
| "token_type (LiteralToken v) = ''literal''"
| "token_type (IdentToken v lv) = ''ident''"
| "token_type (HashToken v b) = ''hash''"
| "token_type (StringToken v) = ''string''"
| "token_type (SquareBracketsBlock c) = ''[] block''"
| "token_type (FunctionBlock n ln a) = ''function''"
| "token_type (OtherToken k) = other_type_name k"

text \<open>
  Only a literal token compares equal to a Python string (tinycss2 defines \<^verbatim>\<open>__eq__\<close> on
  \<^verbatim>\<open>LiteralToken\<close> alone); \<^verbatim>\<open>None\<close> and every other token are different from any string.
\<close>

definition tok_eq :: "token option \<Rightarrow> string \<Rightarrow> bool" where
  "tok_eq t s = (t = Some (LiteralToken s))"

definition tok_in :: "token option \<Rightarrow> string list \<Rightarrow> bool" where
  "tok_in t ss = (case t of Some (LiteralToken v) \<Rightarrow> v \<in> set ss | _ \<Rightarrow> False)"

section \<open>Errors\<close>

text \<open>
  \<^verbatim>\<open>SelectorError(token, message)\<close> carries the offending token (or \<^verbatim>\<open>None\<close>) and a
  message. A message is a fixed template filled from the carried token, so it is modelled by
  the name of its template:
  \<^item> \<open>Unexpected_type_token\<close>: \<^verbatim>\<open>unexpected {next.type} token.\<close> (in \<^verbatim>\<open>parse\<close>);
  \<^item> \<open>Expected_compound_selector\<close>: \<^verbatim>\<open>expected a compound selector, got {peek_type}\<close>;
  \<^item> \<open>Expected_class_name\<close>: \<^verbatim>\<open>Expected a class name, got {next}\<close>;
  \<^item> \<open>Expected_pseudo_element_name\<close>: \<^verbatim>\<open>Expected a pseudo-element name, got {next}\<close>;
  \<^item> \<open>Expected_supported_pseudo_element\<close>: \<^verbatim>\<open>Expected a supported pseudo-element, got {value}\<close>;
  \<^item> \<open>Unexpected_token\<close>: \<^verbatim>\<open>unexpected {next} token.\<close> (in \<^verbatim>\<open>parse_simple_selector\<close>);
  \<^item> \<open>Expected_attribute_name\<close>: \<^verbatim>\<open>expected attribute name, got {next}\<close>;
  \<^item> \<open>Expected_attribute_value\<close>: \<^verbatim>\<open>expected attribute value, got {next_type}\<close>;
  \<^item> \<open>Expected_attribute_operator\<close>: \<^verbatim>\<open>expected attribute selector operator, got {peek}\<close>;
  \<^item> \<open>Expected_closing_bracket\<close>: \<^verbatim>\<open>expected ], got {next.type}\<close>;
  \<^item> \<open>Undefined_namespace_prefix\<close>: \<^verbatim>\<open>undefined namespace prefix: {first_ident.value}\<close>;
  \<^item> \<open>Expected_local_name\<close>: \<^verbatim>\<open>expected local name, got {next.type}\<close>.

  Three more Python exceptions are written into the model, none a \<^verbatim>\<open>SelectorError\<close>:
  \<open>AttributeError\<close>, when an attribute of \<^verbatim>\<open>None\<close> is read (\<^verbatim>\<open>next.type\<close> at the end of
  \<^verbatim>\<open>parse_qualified_name\<close>, with the stream exhausted, or an attribute a token does not
  have); \<open>TypeError\<close>, when \<^verbatim>\<open>None\<close> is unpacked as a pair; and \<open>UnboundLocalError\<close>, when
  \<^verbatim>\<open>parse_logical_combination\<close> is given a name that is none of its four.
\<close>

datatype message =
    Unexpected_type_token
  | Expected_compound_selector
  | Expected_class_name
  | Expected_pseudo_element_name
  | Expected_supported_pseudo_element
  | Unexpected_token
  | Expected_attribute_name
  | Expected_attribute_value
  | Expected_attribute_operator
  | Expected_closing_bracket
  | Undefined_namespace_prefix
  | Expected_local_name

datatype error =
    SelectorError "token option" message
  | AttributeError
  | TypeError
  | UnboundLocalError

fun is_SelectorError :: "error \<Rightarrow> bool" where
  "is_SelectorError (SelectorError t m) = True"
| "is_SelectorError e = False"

section \<open>The token cursor\<close>

text \<open>
  A \<^verbatim>\<open>TokenStream\<close> is an iterator with a one-token push-back buffer (\<^verbatim>\<open>peeked\<close>); what it
  still has to deliver is a list of tokens, and that list is its state. Every operation that
  advances the cursor returns the remaining tokens beside its result.
\<close>

type_synonym TokenStream = "token list"

definition next_token :: "TokenStream \<Rightarrow> token option \<times> TokenStream" where
  "next_token tokens = (case tokens of [] \<Rightarrow> (None, []) | t # rest \<Rightarrow> (Some t, rest))"

definition peek :: "TokenStream \<Rightarrow> token option" where
  "peek tokens = (case tokens of [] \<Rightarrow> None | t # rest \<Rightarrow> Some t)"

fun skip :: "string list \<Rightarrow> TokenStream \<Rightarrow> bool \<times> TokenStream" where
  "skip skip_types [] = (False, [])"
| "skip skip_types (t # rest) =
     (if token_type t \<notin> set skip_types then (False, t # rest)
      else (True, snd (skip skip_types rest)))"

definition skip_whitespace :: "TokenStream \<Rightarrow> bool \<times> TokenStream" where
  "skip_whitespace tokens = skip [''whitespace''] tokens"

definition skip_comment :: "TokenStream \<Rightarrow> bool \<times> TokenStream" where
  "skip_comment tokens = skip [''comment''] tokens"

definition skip_whitespace_and_comment :: "TokenStream \<Rightarrow> bool \<times> TokenStream" where
  "skip_whitespace_and_comment tokens = skip [''comment'', ''whitespace''] tokens"

section \<open>The selector tree\<close>

text \<open>
  One constructor per node class. \<^verbatim>\<open>Selector.__init__\<close> computes the specificity when the
  node is built and stores it in the node, so \<open>Selector\<close> has the three attributes
  \<^verbatim>\<open>parsed_tree\<close>, \<^verbatim>\<open>pseudo_element\<close> and \<^verbatim>\<open>specificity\<close>, and \<open>Selector_init\<close> below is
  the constructor the parser calls. A local name is the pair \<^verbatim>\<open>(value, lower_value)\<close>. The
  namespace of an attribute selector is \<open>None\<close> for \<^verbatim>\<open>*|\<close> (any namespace).
  \<^verbatim>\<open>specificity\<close> and \<^verbatim>\<open>pseudo_element\<close> of a \<open>RelativeSelector\<close> are properties that read
  the selector it wraps; \<open>parsed_tree\<close> reads \<^verbatim>\<open>selector.parsed_tree\<close> there.
\<close>

type_synonym specificity = "int \<times> int \<times> int"

datatype simple_selector =
    LocalNameSelector string string
  | NamespaceSelector string
  | IDSelector string
  | ClassSelector string
  | AttributeSelector "string option" string string "string option" "string option"
  | PseudoClassSelector string
  | FunctionalPseudoClassSelector string "token list"
  | NegationSelector "selector list"
  | RelationalSelector "selector list"
  | MatchesAnySelector "selector list"
  | SpecificityAdjustmentSelector "selector list"
and tree =
    CompoundSelector "simple_selector list"
  | CombinedSelector tree string tree
and selector =
    Selector tree "string option" specificity
  | RelativeSelector string selector

fun selector_specificity :: "selector \<Rightarrow> specificity" where
  "selector_specificity (Selector t pe spec) = spec"
| "selector_specificity (RelativeSelector combinator sel) = selector_specificity sel"

fun pseudo_element :: "selector \<Rightarrow> string option" where
  "pseudo_element (Selector t pe spec) = pe"
| "pseudo_element (RelativeSelector combinator sel) = pseudo_element sel"

fun parsed_tree :: "selector \<Rightarrow> tree" where
  "parsed_tree (Selector t pe spec) = t"
| "parsed_tree (RelativeSelector combinator sel) = parsed_tree sel"

text \<open>
  Python compares tuples lexicographically, and \<^verbatim>\<open>max\<close> over an iterable keeps the first
  item and replaces it by every later item that is strictly greater.
\<close>

fun tuple_gt :: "specificity \<Rightarrow> specificity \<Rightarrow> bool" where
  "tuple_gt (a1, b1, c1) (a2, b2, c2) =
     (if a1 \<noteq> a2 then a1 > a2 else if b1 \<noteq> b2 then b1 > b2 else c1 > c2)"

fun py_max_from :: "specificity \<Rightarrow> specificity list \<Rightarrow> specificity" where
  "py_max_from max_item [] = max_item"
| "py_max_from max_item (item # items) =
     py_max_from (if tuple_gt item max_item then item else max_item) items"

definition selector_list_max :: "selector list \<Rightarrow> specificity" where
  "selector_list_max selector_list =
     (case map selector_specificity selector_list of
        [] \<Rightarrow> (0, 0, 0)
      | s # ss \<Rightarrow> py_max_from s ss)"

fun simple_specificity :: "simple_selector \<Rightarrow> specificity" where
  "simple_specificity (LocalNameSelector local_name lower_local_name) = (0, 0, 1)"
| "simple_specificity (NamespaceSelector namespace) = (0, 0, 0)"
| "simple_specificity (IDSelector ident) = (1, 0, 0)"
| "simple_specificity (ClassSelector class_name) = (0, 1, 0)"
| "simple_specificity (AttributeSelector namespace name lower_name operator val) = (0, 1, 0)"
| "simple_specificity (PseudoClassSelector name) = (0, 1, 0)"
| "simple_specificity (FunctionalPseudoClassSelector name arguments) = (0, 1, 0)"
| "simple_specificity (NegationSelector selector_list) = selector_list_max selector_list"
| "simple_specificity (RelationalSelector selector_list) = selector_list_max selector_list"
| "simple_specificity (MatchesAnySelector selector_list) = selector_list_max selector_list"
| "simple_specificity (SpecificityAdjustmentSelector selector_list) = (0, 0, 0)"

text \<open>
  \<^verbatim>\<open>tuple(map(sum, zip(*specs)))\<close> sums a non-empty list of triples component by component.
\<close>

definition sum_columns :: "specificity list \<Rightarrow> specificity" where
  "sum_columns specs =
     (sum_list (map fst specs), sum_list (map (fst \<circ> snd) specs),
      sum_list (map (snd \<circ> snd) specs))"

fun tree_specificity :: "tree \<Rightarrow> specificity" where
  "tree_specificity (CompoundSelector simple_selectors) =
     (if simple_selectors \<noteq> [] then sum_columns (map simple_specificity simple_selectors)
      else (0, 0, 0))"
| "tree_specificity (CombinedSelector left combinator right) =
     (case (tree_specificity left, tree_specificity right) of
        ((a1, b1, c1), (a2, b2, c2)) \<Rightarrow> (a1 + a2, b1 + b2, c1 + c2))"

definition Selector_init :: "tree \<Rightarrow> string option \<Rightarrow> selector" where
  "Selector_init t pseudo =
     (case pseudo of
        None \<Rightarrow> Selector t pseudo (tree_specificity t)
      | Some p \<Rightarrow> (case tree_specificity t of (a, b, c) \<Rightarrow> Selector t pseudo (a, b, c + 1)))"

lemma parsed_tree_Selector_init [simp]: "parsed_tree (Selector_init t pseudo) = t"
  by (simp add: Selector_init_def split: option.splits prod.splits)

lemma pseudo_element_Selector_init [simp]: "pseudo_element (Selector_init t pseudo) = pseudo"
  by (simp add: Selector_init_def split: option.splits prod.splits)

section \<open>Qualified names\<close>

text \<open>
  The namespace mapping is a dict whose keys are prefixes or \<^verbatim>\<open>None\<close> (the default
  namespace); \<^verbatim>\<open>namespaces or {}\<close> makes an absent mapping the empty one.
  \<^verbatim>\<open>parse_qualified_name\<close> returns \<^verbatim>\<open>None\<close> (no qualified name here) or a pair
  \<^verbatim>\<open>(namespace, local_name)\<close>, where the namespace is \<^verbatim>\<open>None\<close> (any), the empty string (no
  namespace) or a URI, and the local name is \<^verbatim>\<open>None\<close> (the wildcard) or
  \<^verbatim>\<open>(value, lower_value)\<close>.
\<close>

type_synonym namespaces = "string option \<Rightarrow> string option"

type_synonym qualified_name = "string option \<times> (string \<times> string) option"

text \<open>
  The tail of \<^verbatim>\<open>parse_qualified_name\<close>, reached once \<^verbatim>\<open>|\<close> is consumed and \<^verbatim>\<open>namespace\<close>
  is set. It reads \<^verbatim>\<open>next.type\<close> without testing \<^verbatim>\<open>next\<close> for \<^verbatim>\<open>None\<close>.
\<close>

definition qualified_name_local ::
  "string option \<Rightarrow> TokenStream \<Rightarrow> bool \<Rightarrow> (error + qualified_name option) \<times> TokenStream" where
  "qualified_name_local namespace tokens is_attribute =
     (case next_token tokens of
        (None, tokens1) \<Rightarrow> (Inl AttributeError, tokens1)
      | (Some (IdentToken v lv), tokens1) \<Rightarrow> (Inr (Some (namespace, Some (v, lv))), tokens1)
      | (Some nxt, tokens1) \<Rightarrow>
          if nxt = LiteralToken ''*'' \<and> \<not> is_attribute
          then (Inr (Some (namespace, None)), tokens1)
          else (Inl (SelectorError (Some nxt) Expected_local_name), tokens1))"

definition parse_qualified_name ::
  "TokenStream \<Rightarrow> namespaces \<Rightarrow> bool \<Rightarrow> (error + qualified_name option) \<times> TokenStream" where
  "parse_qualified_name tokens namespaces is_attribute =
     (case peek tokens of
        None \<Rightarrow> (Inr None, tokens)
      | Some (IdentToken v lv) \<Rightarrow>
          (let tokens1 = snd (next_token tokens) in
           if \<not> tok_eq (peek tokens1) ''|''
           then (Inr (Some (if is_attribute then Some '''' else namespaces None, Some (v, lv))),
                 tokens1)
           else
             (let tokens2 = snd (next_token tokens1) in
              case namespaces (Some v) of
                None \<Rightarrow>
                  (Inl (SelectorError (Some (IdentToken v lv)) Undefined_namespace_prefix),
                   tokens2)
              | Some namespace \<Rightarrow> qualified_name_local (Some namespace) tokens2 is_attribute))
      | Some pk \<Rightarrow>
          if pk = LiteralToken ''*'' then
            (let tokens1 = snd (next_token tokens) in
             if \<not> tok_eq (peek tokens1) ''|''
             then (if is_attribute
                   then (Inl (SelectorError (Some pk) Expected_local_name), tokens1)
                   else (Inr (Some (namespaces None, None)), tokens1))
             else qualified_name_local None (snd (next_token tokens1)) is_attribute)
          else if pk = LiteralToken ''|'' then
            qualified_name_local (Some '''') (snd (next_token tokens)) is_attribute
          else (Inr None, tokens))"

section \<open>Attribute selectors\<close>

text \<open>
  \<^verbatim>\<open>.value\<close> is read only from tokens whose type has been tested before (a literal, an ident,
  a hash or a string); no other token's value is ever read.
\<close>

fun token_value :: "token \<Rightarrow> string" where
  "token_value (LiteralToken v) = v"
| "token_value (IdentToken v lv) = v"
| "token_value (HashToken v b) = v"
| "token_value (StringToken v) = v"
| "token_value t = []"

text \<open>
  \<^verbatim>\<open>parse_attribute_selector\<close> up to the point where name, operator and value are known
  (the code before its last \<^verbatim>\<open>tokens.skip_whitespace()\<close>).
\<close>

type_synonym attribute_parts =
  "string option \<times> (string \<times> string) option \<times> string option \<times> string option"

definition attribute_selector_parts ::
  "TokenStream \<Rightarrow> namespaces \<Rightarrow> (error + attribute_parts) \<times> TokenStream" where
  "attribute_selector_parts tokens namespaces =
     (let tokens1 = snd (skip_whitespace tokens) in
      case parse_qualified_name tokens1 namespaces True of
        (Inl e, tokens2) \<Rightarrow> (Inl e, tokens2)
      | (Inr None, tokens2) \<Rightarrow>
          (case next_token tokens2 of
             (nxt, tokens3) \<Rightarrow> (Inl (SelectorError nxt Expected_attribute_name), tokens3))
      | (Inr (Some (namespace, local_name)), tokens2) \<Rightarrow>
          (let tokens3 = snd (skip_whitespace tokens2) in
           case peek tokens3 of
             None \<Rightarrow> (Inr (namespace, local_name, None, None), tokens3)
           | Some pk \<Rightarrow>
               if tok_in (Some pk) [''='', ''~='', ''|='', ''^='', ''$='', ''*='']
               then
                 (let operator = token_value pk;
                      tokens4 = snd (next_token tokens3);
                      tokens5 = snd (skip_whitespace tokens4)
                  in case next_token tokens5 of
                       (Some (IdentToken v lv), tokens6) \<Rightarrow>
                         (Inr (namespace, local_name, Some operator, Some v), tokens6)
                     | (Some (StringToken v), tokens6) \<Rightarrow>
                         (Inr (namespace, local_name, Some operator, Some v), tokens6)
                     | (nxt, tokens6) \<Rightarrow>
                         (Inl (SelectorError nxt Expected_attribute_value), tokens6))
               else (Inl (SelectorError (Some pk) Expected_attribute_operator), tokens3)))"

text \<open>
  \<^verbatim>\<open>AttributeSelector.__init__\<close> unpacks the local name into \<^verbatim>\<open>name, lower_name\<close>; a
  \<^verbatim>\<open>None\<close> there would be a \<^verbatim>\<open>TypeError\<close>.
\<close>

definition parse_attribute_selector ::
  "TokenStream \<Rightarrow> namespaces \<Rightarrow> (error + simple_selector) \<times> TokenStream" where
  "parse_attribute_selector tokens namespaces =
     (case attribute_selector_parts tokens namespaces of
        (Inl e, tokens1) \<Rightarrow> (Inl e, tokens1)
      | (Inr (namespace, local_name, operator, val), tokens1) \<Rightarrow>
          (let tokens2 = snd (skip_whitespace tokens1) in
           case next_token tokens2 of
             (Some nxt, tokens3) \<Rightarrow>
               (Inl (SelectorError (Some nxt) Expected_closing_bracket), tokens3)
           | (None, tokens3) \<Rightarrow>
               (case local_name of
                  None \<Rightarrow> (Inl TypeError, tokens3)
                | Some (name, lower_name) \<Rightarrow>
                    (Inr (AttributeSelector namespace name lower_name operator val), tokens3))))"

section \<open>Simple selectors\<close>

definition SUPPORTED_PSEUDO_ELEMENTS :: "string list" where
  "SUPPORTED_PSEUDO_ELEMENTS =
     [''first-line'', ''first-letter'', ''prefix'', ''postfix'', ''selection'',
      ''target-text'', ''spelling-error'', ''grammar-error'', ''before'', ''after'',
      ''marker'', ''placeholder'', ''file-selector-button'',
      ''footnote-call'', ''footnote-marker'',
      ''content'', ''shadow'']"

definition parse_type_selector ::
  "TokenStream \<Rightarrow> namespaces \<Rightarrow> (error + simple_selector list option) \<times> TokenStream" where
  "parse_type_selector tokens namespaces =
     (let tokens1 = snd (skip_whitespace tokens) in
      case parse_qualified_name tokens1 namespaces False of
        (Inl e, tokens2) \<Rightarrow> (Inl e, tokens2)
      | (Inr None, tokens2) \<Rightarrow> (Inr None, tokens2)
      | (Inr (Some (namespace, local_name)), tokens2) \<Rightarrow>
          (Inr (Some
             ((case local_name of None \<Rightarrow> [] | Some (v, lv) \<Rightarrow> [LocalNameSelector v lv]) @
              (case namespace of None \<Rightarrow> [] | Some n \<Rightarrow> [NamespaceSelector n]))),
           tokens2))"

text \<open>
  The parser is recursive through \<^verbatim>\<open>parse_logical_combination\<close>, which parses the
  arguments of a function token with a cursor of their own. In the functions of this section
  and the next that call is the parameter \<open>plc\<close>; it is bound to
  \<open>parse_logical_combination\<close> once that function is defined, by recursion on the token.
\<close>

type_synonym logical_combination =
  "token \<Rightarrow> namespaces \<Rightarrow> string \<Rightarrow> error + simple_selector"

definition parse_simple_selector_with ::
  "logical_combination \<Rightarrow> TokenStream \<Rightarrow> namespaces \<Rightarrow>
   (error + simple_selector option \<times> string option) \<times> TokenStream" where
  "parse_simple_selector_with plc tokens namespaces =
     (case peek tokens of
        None \<Rightarrow> (Inr (None, None), tokens)
      | Some (HashToken v is_identifier) \<Rightarrow>
          if is_identifier then (Inr (Some (IDSelector v), None), snd (next_token tokens))
          else (Inr (None, None), tokens)
      | Some (SquareBracketsBlock content) \<Rightarrow>
          (let tokens1 = snd (next_token tokens) in
           case fst (parse_attribute_selector content namespaces) of
             Inl e \<Rightarrow> (Inl e, tokens1)
           | Inr attr \<Rightarrow> (Inr (Some attr, None), tokens1))
      | Some (LiteralToken l) \<Rightarrow>
          if l = ''.'' then
            (let tokens1 = snd (next_token tokens) in
             case next_token tokens1 of
               (Some (IdentToken v lv), tokens2) \<Rightarrow> (Inr (Some (ClassSelector v), None), tokens2)
             | (nxt, tokens2) \<Rightarrow> (Inl (SelectorError nxt Expected_class_name), tokens2))
          else if l = '':'' then
            (let tokens1 = snd (next_token tokens) in
             case next_token tokens1 of
               (nxt, tokens2) \<Rightarrow>
                 if tok_eq nxt '':'' then
                   (case next_token tokens2 of
                      (Some (IdentToken v lv), tokens3) \<Rightarrow>
                        if lv \<notin> set SUPPORTED_PSEUDO_ELEMENTS
                        then (Inl (SelectorError (Some (IdentToken v lv))
                                     Expected_supported_pseudo_element), tokens3)
                        else (Inr (None, Some lv), tokens3)
                    | (nxt2, tokens3) \<Rightarrow>
                        (Inl (SelectorError nxt2 Expected_pseudo_element_name), tokens3))
                 else
                   (case nxt of
                      Some (IdentToken v lv) \<Rightarrow>
                        if lv \<in> set [''before'', ''after'', ''first-line'', ''first-letter'']
                        then (Inr (None, Some lv), tokens2)
                        else (Inr (Some (PseudoClassSelector lv), None), tokens2)
                    | Some (FunctionBlock n ln arguments) \<Rightarrow>
                        if ln \<in> set [''is'', ''where'', ''not'', ''has'']
                        then (case plc (FunctionBlock n ln arguments) namespaces ln of
                                Inl e \<Rightarrow> (Inl e, tokens2)
                              | Inr s \<Rightarrow> (Inr (Some s, None), tokens2))
                        else (Inr (Some (FunctionalPseudoClassSelector ln arguments), None),
                              tokens2)
                    | _ \<Rightarrow> (Inl (SelectorError nxt Unexpected_token), tokens2)))
          else (Inr (None, None), tokens)
      | Some pk \<Rightarrow> (Inr (None, None), tokens))"

section \<open>The cursor only moves forward\<close>

text \<open>
  What an operation leaves in the stream is a suffix of what it was given. The loops below
  terminate by that: each round consumes a token.
\<close>

lemma next_token_eq: "next_token tokens = (peek tokens, tl tokens)"
  by (cases tokens) (simp_all add: next_token_def peek_def)

lemma peek_simps [simp]: "peek [] = None" "peek (t # ts) = Some t"
  by (simp_all add: peek_def)

lemma peek_eq_None_iff [simp]: "peek tokens = None \<longleftrightarrow> tokens = []"
  by (cases tokens) simp_all

lemma suffix_tl: "suffix (tl xs) xs"
  by (cases xs) (simp_all add: suffix_ConsI)

lemma suffix_tl_trans: "suffix ys xs \<Longrightarrow> suffix (tl ys) xs"
  using suffix_tl by (rule suffix_order.trans)

lemma skip_suffix: "suffix (snd (skip skip_types tokens)) tokens"
  by (induction tokens) (auto simp: suffix_ConsI)

lemma skip_suffix_trans: "suffix ys xs \<Longrightarrow> suffix (snd (skip skip_types ys)) xs"
  using skip_suffix by (rule suffix_order.trans)

lemma skip_True_length:
  assumes "skip skip_types tokens = (True, rest)"
  shows "length rest < length tokens"
proof (cases tokens)
  case Nil with assms show ?thesis by simp
next
  case (Cons t ts)
  with assms have "rest = snd (skip skip_types ts)" by (auto split: if_splits)
  with skip_suffix [of skip_types ts] have "length rest \<le> length ts" by (simp add: suffix_length_le)
  with Cons show ?thesis by simp
qed

lemmas skip_defs = skip_whitespace_def skip_comment_def skip_whitespace_and_comment_def

lemma qualified_name_local_suffix:
  "suffix ys xs \<Longrightarrow> suffix (snd (qualified_name_local namespace ys is_attribute)) xs"
  by (auto simp: qualified_name_local_def next_token_eq suffix_tl_trans split: option.splits token.splits)

lemma parse_qualified_name_suffix:
  "suffix ys xs \<Longrightarrow> suffix (snd (parse_qualified_name ys namespaces is_attribute)) xs"
  unfolding parse_qualified_name_def Let_def next_token_eq
  by (auto split: option.splits token.splits intro!: qualified_name_local_suffix suffix_tl_trans)

lemma parse_type_selector_suffix:
  "suffix ys xs \<Longrightarrow> suffix (snd (parse_type_selector ys namespaces)) xs"
proof -
  assume "suffix ys xs"
  then have "suffix (snd (parse_qualified_name (snd (skip_whitespace ys)) namespaces False)) xs"
    unfolding skip_whitespace_def by (intro parse_qualified_name_suffix skip_suffix_trans)
  then show ?thesis
    by (auto simp: parse_type_selector_def Let_def split: prod.splits sum.splits option.splits)
qed

lemma parse_simple_selector_with_tl:
  "parse_simple_selector_with plc tokens namespaces = (Inr (None, None), tokens) \<or>
   tokens \<noteq> [] \<and> suffix (snd (parse_simple_selector_with plc tokens namespaces)) (tl tokens)"
proof (cases tokens)
  case Nil
  then show ?thesis by (simp add: parse_simple_selector_with_def)
next
  case (Cons t ts)
  have 1: "suffix (tl ts) ts" by (rule suffix_tl)
  have 2: "suffix (tl (tl ts)) ts" using 1 by (rule suffix_tl_trans)
  show ?thesis
  proof (cases t)
    case (LiteralToken l)
    show ?thesis 
      unfolding Cons LiteralToken parse_simple_selector_with_def Let_def next_token_eq
      using 1 2
      by (simp split: option.split token.split sum.split)
  qed (simp_all add: Cons parse_simple_selector_with_def Let_def next_token_eq split: sum.split)
qed

lemma parse_simple_selector_with_suffix:
  "suffix ys xs \<Longrightarrow> suffix (snd (parse_simple_selector_with plc ys namespaces)) xs"
  using parse_simple_selector_with_tl [of plc ys namespaces]
  by (auto intro: suffix_order.trans suffix_tl_trans)

lemma parse_simple_selector_with_length:
  assumes "parse_simple_selector_with plc tokens namespaces = (Inr (Some s, pe), rest)"
  shows "length rest < length tokens"
proof -
  from assms parse_simple_selector_with_tl [of plc tokens namespaces]
  have "tokens \<noteq> []" "suffix rest (tl tokens)" by auto
  then show ?thesis by (cases tokens) (auto dest: suffix_length_le)
qed

section \<open>Compound selectors\<close>

text \<open>
  The \<^verbatim>\<open>while 1\<close> loop of \<^verbatim>\<open>parse_compound_selector\<close>, with the list
  \<^verbatim>\<open>simple_selectors\<close> it appends to, and then the function around it.
\<close>

function parse_compound_loop_with ::
  "logical_combination \<Rightarrow> TokenStream \<Rightarrow> namespaces \<Rightarrow> simple_selector list \<Rightarrow>
   (error + simple_selector list \<times> string option) \<times> TokenStream" where
  "parse_compound_loop_with plc tokens namespaces simple_selectors =
     (case parse_simple_selector_with plc tokens namespaces of
        (Inl e, tokens1) \<Rightarrow> (Inl e, tokens1)
      | (Inr (simple_selector, pseudo), tokens1) \<Rightarrow>
          (case simple_selector of
             None \<Rightarrow> (Inr (simple_selectors, pseudo), tokens1)
           | Some s \<Rightarrow>
               if pseudo \<noteq> None then (Inr (simple_selectors, pseudo), tokens1)
               else parse_compound_loop_with plc tokens1 namespaces (simple_selectors @ [s])))"
  by pat_completeness auto
termination
proof (relation "measure (\<lambda>(plc, tokens, namespaces, simple_selectors). length tokens)", goal_cases)
  case 1 show ?case by simp
next
  case (2 plc tokens namespaces simple_selectors x tokens1 y simple_selector pseudo s)
  then have "parse_simple_selector_with plc tokens namespaces = (Inr (Some s, pseudo), tokens1)"
    by simp
  then show ?case by (simp add: parse_simple_selector_with_length)
qed

declare parse_compound_loop_with.simps [simp del]

definition parse_compound_selector_with ::
  "logical_combination \<Rightarrow> TokenStream \<Rightarrow> namespaces \<Rightarrow>
   (error + tree \<times> string option) \<times> TokenStream" where
  "parse_compound_selector_with plc tokens namespaces =
     (case parse_type_selector tokens namespaces of
        (Inl e, tokens1) \<Rightarrow> (Inl e, tokens1)
      | (Inr type_selectors, tokens1) \<Rightarrow>
          (case parse_compound_loop_with plc tokens1 namespaces
                  (case type_selectors of None \<Rightarrow> [] | Some sels \<Rightarrow> sels) of
             (Inl e, tokens2) \<Rightarrow> (Inl e, tokens2)
           | (Inr (simple_selectors, pseudo), tokens2) \<Rightarrow>
               if simple_selectors \<noteq> [] \<or> (type_selectors, pseudo) \<noteq> (None, None)
               then (Inr (CompoundSelector simple_selectors, pseudo), tokens2)
               else (Inl (SelectorError (peek tokens2) Expected_compound_selector), tokens2)))"

lemma parse_compound_loop_suffix:
  "suffix ys xs \<Longrightarrow> suffix (snd (parse_compound_loop_with plc ys namespaces acc)) xs"
proof (induction plc ys namespaces acc rule: parse_compound_loop_with.induct)
  case (1 plc tokens namespaces simple_selectors)
  obtain r tokens1 where p: "parse_simple_selector_with plc tokens namespaces = (r, tokens1)"
    by (cases "parse_simple_selector_with plc tokens namespaces")
  with parse_simple_selector_with_suffix [OF "1.prems", of plc namespaces]
  have s: "suffix tokens1 xs" by simp
  show ?case
    using s p "1.IH" [OF p [symmetric]]
    by (subst parse_compound_loop_with.simps) (auto split: sum.splits option.splits)
qed

lemma parse_compound_selector_with_suffix:
  assumes "suffix ys xs"
  shows "suffix (snd (parse_compound_selector_with plc ys namespaces)) xs"
proof -
  obtain r1 tokens1 where p1: "parse_type_selector ys namespaces = (r1, tokens1)"
    by (cases "parse_type_selector ys namespaces")
  with parse_type_selector_suffix [OF assms, of namespaces]
  have s1: "suffix tokens1 xs" by simp
  show ?thesis
  proof (cases r1)
    case (Inl e)
    with p1 s1 show ?thesis by (simp add: parse_compound_selector_with_def)
  next
    case (Inr type_selectors)
    obtain r2 tokens2 where p2: "parse_compound_loop_with plc tokens1 namespaces
        (case type_selectors of None \<Rightarrow> [] | Some sels \<Rightarrow> sels) = (r2, tokens2)"
      by (cases "parse_compound_loop_with plc tokens1 namespaces
        (case type_selectors of None \<Rightarrow> [] | Some sels \<Rightarrow> sels)")
    with parse_compound_loop_suffix [OF s1, of plc namespaces]
    have "suffix tokens2 xs" by (metis snd_conv)
    with p1 p2 Inr show ?thesis
      by (simp add: parse_compound_selector_with_def split: sum.splits)
  qed
qed

section \<open>Combinators\<close>

text \<open>
  The inner loop of \<^verbatim>\<open>parse_selector\<close>,
  \<^verbatim>\<open>while tokens.skip_comment(): has_whitespace = tokens.skip_whitespace() or has_whitespace\<close>.
\<close>

function skip_comments :: "bool \<Rightarrow> TokenStream \<Rightarrow> bool \<times> TokenStream" where
  "skip_comments has_whitespace tokens =
     (case skip_comment tokens of
        (False, tokens1) \<Rightarrow> (has_whitespace, tokens1)
      | (True, tokens1) \<Rightarrow>
          (case skip_whitespace tokens1 of
             (ws, tokens2) \<Rightarrow> skip_comments (ws \<or> has_whitespace) tokens2))"
  by pat_completeness auto
termination
proof (relation "measure (\<lambda>(has_whitespace, tokens). length tokens)", goal_cases)
  case 1 show ?case by simp
next
  case (2 has_whitespace tokens x y ws tokens2)
  then have a: "skip [''comment''] tokens = (True, y)" and b: "tokens2 = snd (skip [''whitespace''] y)"
    by (simp_all add: skip_defs) (metis snd_conv)
  from a have "length y < length tokens" by (rule skip_True_length)
  moreover from b have "length tokens2 \<le> length y"
    using skip_suffix [of "[''whitespace'']" y] by (simp add: suffix_length_le)
  ultimately show ?case by simp
qed

declare skip_comments.simps [simp del]

lemma skip_comments_suffix:
  "suffix ys xs \<Longrightarrow> suffix (snd (skip_comments h ys)) xs"
proof (induction h ys rule: skip_comments.induct)
  case (1 has_whitespace tokens)
  obtain c tokens1 where p1: "skip_comment tokens = (c, tokens1)"
    by (cases "skip_comment tokens")
  obtain ws tokens2 where p2: "skip_whitespace tokens1 = (ws, tokens2)"
    by (cases "skip_whitespace tokens1")
  have s1: "suffix tokens1 xs"
    using skip_suffix_trans [OF "1.prems", of "[''comment'']"] p1 by (simp add: skip_defs)
  have s2: "suffix tokens2 xs"
    using skip_suffix_trans [OF s1, of "[''whitespace'']"] p2 by (simp add: skip_defs)
  show ?case
  proof (cases c)
    case True
    with p1 p2 "1.IH" s2
    show ?thesis by (subst skip_comments.simps) auto
  next
    case False
    with p1 s1 show ?thesis by (subst skip_comments.simps) simp
  qed
qed

text \<open>
  What the loop of \<^verbatim>\<open>parse_selector\<close> decides from the peeked token once the selector has
  no pseudo-element: \<open>None\<close> where the source returns the selector (end of input, a comma,
  or neither a combinator token nor whitespace before), otherwise the combinator and the
  stream, with an explicit combinator token consumed.
\<close>

definition next_combinator :: "bool \<Rightarrow> TokenStream \<Rightarrow> (string \<times> TokenStream) option" where
  "next_combinator has_whitespace tokens =
     (case peek tokens of
        None \<Rightarrow> None
      | Some pk \<Rightarrow>
          if pk = LiteralToken '','' then None
          else if tok_in (Some pk) [''>'', ''+'', ''~'']
          then Some (token_value pk, snd (next_token tokens))
          else if has_whitespace then Some ('' '', tokens)
          else None)"

lemma skip_comments_length:
  "length (snd (skip_comments h ys)) \<le> length ys"
  using skip_comments_suffix [of ys ys h] by (simp add: suffix_length_le)

lemma skip_comments_fst:
  "fst (skip_comments h ys) \<Longrightarrow> \<not> h \<Longrightarrow> length (snd (skip_comments h ys)) < length ys"
proof (induction h ys rule: skip_comments.induct)
  case (1 has_whitespace tokens)
  obtain c tokens1 where p1: "skip_comment tokens = (c, tokens1)"
    by (cases "skip_comment tokens")
  obtain ws tokens2 where p2: "skip_whitespace tokens1 = (ws, tokens2)"
    by (cases "skip_whitespace tokens1")
  show ?case
  proof (cases c)
    case True
    from p1 True have "length tokens1 < length tokens"
      by (simp add: skip_defs skip_True_length)
    moreover from p2 have "length tokens2 \<le> length tokens1"
      using skip_suffix [of "[''whitespace'']" tokens1] by (simp add: skip_defs suffix_length_le)
    moreover have "length (snd (skip_comments (ws \<or> has_whitespace) tokens2)) \<le> length tokens2"
      by (rule skip_comments_length)
    ultimately show ?thesis using p1 p2 True
      by (subst skip_comments.simps) simp
  next
    case False
    with p1 "1.prems" show ?thesis by (subst (asm) skip_comments.simps) simp
  qed
qed

text \<open>
  The \<^verbatim>\<open>while 1\<close> loop of \<^verbatim>\<open>parse_selector\<close>: its state is the stream, \<^verbatim>\<open>result\<close> and
  \<^verbatim>\<open>pseudo_element\<close>. Each round builds the \<open>Selector\<close> before it tests whether to return
  it, as the source does.
\<close>

function parse_selector_loop_with ::
  "logical_combination \<Rightarrow> TokenStream \<Rightarrow> namespaces \<Rightarrow> bool \<Rightarrow> string \<Rightarrow> tree \<Rightarrow>
   string option \<Rightarrow> (error + selector) \<times> TokenStream" where
  "parse_selector_loop_with plc tokens namespaces relative initial_combinator result pseudo =
     (case skip_whitespace tokens of
        (ws, tokens1) \<Rightarrow>
          (case skip_comments ws tokens1 of
             (has_whitespace, tokens2) \<Rightarrow>
               (let sel = Selector_init result pseudo;
                    sel = (if relative then RelativeSelector initial_combinator sel else sel)
                in if pseudo \<noteq> None then (Inr sel, tokens2)
                   else
                     (case next_combinator has_whitespace tokens2 of
                        None \<Rightarrow> (Inr sel, tokens2)
                      | Some (combinator, tokens3) \<Rightarrow>
                          (case parse_compound_selector_with plc tokens3 namespaces of
                             (Inl e, tokens4) \<Rightarrow> (Inl e, tokens4)
                           | (Inr (compound, pseudo1), tokens4) \<Rightarrow>
                               parse_selector_loop_with plc tokens4 namespaces relative
                                 initial_combinator
                                 (CombinedSelector result combinator compound) pseudo1)))))"
  by pat_completeness auto
termination
proof (relation "measure (\<lambda>(plc, tokens, rest). length tokens)", goal_cases)
  case 1 show ?case by simp
next
  case (2 plc tokens namespaces relative initial_combinator result pseudo ws tokens1
      has_whitespace tokens2 sel0 sel x2 combinator tokens3 r tokens4 b compound pseudo1)
  from 2 have a: "skip [''whitespace''] tokens = (ws, tokens1)"
    and b: "skip_comments ws tokens1 = (has_whitespace, tokens2)"
    and c: "next_combinator has_whitespace tokens2 = Some (combinator, tokens3)"
    and d: "tokens4 = snd (parse_compound_selector_with plc tokens3 namespaces)"
    by (simp_all add: skip_defs) (metis snd_conv)
  have l1: "length tokens1 \<le> length tokens"
    using skip_suffix [of "[''whitespace'']" tokens] a by (simp add: suffix_length_le)
  have l2: "length tokens2 \<le> length tokens1"
    using skip_comments_length [of ws tokens1] b by simp
  have l4: "length tokens4 \<le> length tokens3"
    using parse_compound_selector_with_suffix [of tokens3 tokens3 plc namespaces] d
    by (simp add: suffix_length_le)
  from c have "tokens2 \<noteq> [] \<and> tokens3 = tl tokens2 \<or> has_whitespace \<and> tokens3 = tokens2"
    by (auto simp: next_combinator_def next_token_eq split: option.splits if_splits)
  then have "length tokens3 < length tokens"
  proof
    assume "tokens2 \<noteq> [] \<and> tokens3 = tl tokens2"
    then have "length tokens3 < length tokens2" by (cases tokens2) auto
    with l1 l2 show ?thesis by simp
  next
    assume hw: "has_whitespace \<and> tokens3 = tokens2"
    show ?thesis
    proof (cases ws)
      case True
      with a have "length tokens1 < length tokens" by (simp add: skip_True_length)
      with l2 hw show ?thesis by simp
    next
      case False
      with b hw have "length tokens2 < length tokens1"
        using skip_comments_fst [of ws tokens1] by simp
      with l1 hw show ?thesis by simp
    qed
  qed
  with l4 show ?case by simp
qed

declare parse_selector_loop_with.simps [simp del]

lemma next_combinator_suffix:
  "next_combinator h ys = Some (c, zs) \<Longrightarrow> suffix ys xs \<Longrightarrow> suffix zs xs"
  by (auto simp: next_combinator_def next_token_eq suffix_tl_trans split: option.splits if_splits)

lemma parse_selector_loop_suffix:
  "suffix ys xs \<Longrightarrow>
   suffix (snd (parse_selector_loop_with plc ys namespaces relative ic result pseudo)) xs"
proof (induction plc ys namespaces relative ic result pseudo rule: parse_selector_loop_with.induct)
  case (1 plc tokens namespaces relative initial_combinator result pseudo)
  obtain ws tokens1 where p1: "skip_whitespace tokens = (ws, tokens1)"
    by (cases "skip_whitespace tokens")
  obtain has_whitespace tokens2 where p2: "skip_comments ws tokens1 = (has_whitespace, tokens2)"
    by (cases "skip_comments ws tokens1")
  have s1: "suffix tokens1 xs"
    using skip_suffix_trans [OF "1.prems", of "[''whitespace'']"] p1 by (simp add: skip_defs)
  have s2: "suffix tokens2 xs"
    using skip_comments_suffix [OF s1, of ws] p2 by simp
  show ?case
  proof (cases "pseudo \<noteq> None \<or> next_combinator has_whitespace tokens2 = None")
    case True
    with p1 p2 s2 show ?thesis
      by (subst parse_selector_loop_with.simps) (auto simp: Let_def)
  next
    case False
    then obtain combinator tokens3 where
      p3: "next_combinator has_whitespace tokens2 = Some (combinator, tokens3)" and ps: "pseudo = None"
      by auto
    obtain r tokens4 where p4: "parse_compound_selector_with plc tokens3 namespaces = (r, tokens4)"
      by (cases "parse_compound_selector_with plc tokens3 namespaces")
    have s3: "suffix tokens3 xs" using p3 s2 by (rule next_combinator_suffix)
    have s4: "suffix tokens4 xs"
      using parse_compound_selector_with_suffix [OF s3, of plc namespaces] p4 by simp
    show ?thesis
    proof (cases r)
      case (Inl e)
      with p1 p2 p3 p4 ps s4 show ?thesis
        by (subst parse_selector_loop_with.simps) (simp add: Let_def)
    next
      case (Inr b)
      obtain compound pseudo1 where b: "b = (compound, pseudo1)" by (cases b)
      have "suffix (snd (parse_selector_loop_with plc tokens4 namespaces relative initial_combinator
                (CombinedSelector result combinator compound) pseudo1)) xs"
        using "1.IH" [OF p1 [symmetric] p2 [symmetric] refl refl _ p3 refl p4 [symmetric] Inr b [symmetric] s4] ps
        by simp
      with p1 p2 p3 p4 ps Inr b show ?thesis
        by (subst parse_selector_loop_with.simps) (simp add: Let_def)
    qed
  qed
qed

text \<open>
  \<^verbatim>\<open>parse_selector\<close> up to its loop. \<^verbatim>\<open>initial_combinator\<close> is bound only in relative
  mode and read only there; outside it the model passes the empty string.
\<close>

definition parse_selector_with ::
  "logical_combination \<Rightarrow> TokenStream \<Rightarrow> namespaces \<Rightarrow> bool \<Rightarrow> (error + selector) \<times> TokenStream" where
  "parse_selector_with plc tokens namespaces relative =
     (let tokens1 = snd (skip_whitespace_and_comment tokens);
          (initial_combinator, tokens2) =
            (if relative then
               (let (c, tokens') =
                      (case peek tokens1 of
                         None \<Rightarrow> ('' '', tokens1)
                       | Some pk \<Rightarrow>
                           if tok_in (Some pk) [''>'', ''+'', ''~'']
                           then (token_value pk, snd (next_token tokens1))
                           else ('' '', tokens1))
                in (c, snd (skip_whitespace_and_comment tokens')))
             else ([], tokens1))
      in case parse_compound_selector_with plc tokens2 namespaces of
           (Inl e, tokens3) \<Rightarrow> (Inl e, tokens3)
         | (Inr (result, pseudo), tokens3) \<Rightarrow>
             parse_selector_loop_with plc tokens3 namespaces relative initial_combinator result pseudo)"

lemma parse_selector_with_suffix:
  assumes "suffix ys xs"
  shows "suffix (snd (parse_selector_with plc ys namespaces relative)) xs"
proof -
  define tokens1 where "tokens1 = snd (skip_whitespace_and_comment ys)"
  define ict where "ict = (if relative then
               (let (c, tokens') =
                      (case peek tokens1 of
                         None \<Rightarrow> ('' '', tokens1)
                       | Some pk \<Rightarrow>
                           if tok_in (Some pk) [''>'', ''+'', ''~'']
                           then (token_value pk, snd (next_token tokens1))
                           else ('' '', tokens1))
                in (c, snd (skip_whitespace_and_comment tokens')))
             else ([], tokens1))"
  have s1: "suffix tokens1 xs"
    unfolding tokens1_def skip_defs using assms by (rule skip_suffix_trans)
  have s2: "suffix (snd ict) xs"
    unfolding ict_def skip_defs Let_def next_token_eq
    using s1 by (auto intro!: skip_suffix_trans suffix_tl_trans split: option.splits)
  obtain r tokens3 where p3: "parse_compound_selector_with plc (snd ict) namespaces = (r, tokens3)"
    by (cases "parse_compound_selector_with plc (snd ict) namespaces")
  have s3: "suffix tokens3 xs"
    using parse_compound_selector_with_suffix [OF s2, of plc namespaces] p3 by simp
  have "parse_selector_with plc ys namespaces relative =
     (case parse_compound_selector_with plc (snd ict) namespaces of
           (Inl e, tokens3) \<Rightarrow> (Inl e, tokens3)
         | (Inr (result, pseudo), tokens3) \<Rightarrow>
             parse_selector_loop_with plc tokens3 namespaces relative (fst ict) result pseudo)"
    unfolding parse_selector_with_def ict_def tokens1_def Let_def
    by (simp add: case_prod_beta)
  with p3 s3 parse_selector_loop_suffix [OF s3] show ?thesis
    by (auto split: sum.splits)
qed


section \<open>The entry point\<close>

text \<open>
  \<^verbatim>\<open>parse\<close> is a generator. Its run is modelled by what it yields, in order, and by how it
  ends: \<open>None\<close> for a return, \<open>Some e\<close> for the exception \<open>e\<close> it raises. Both handlers
  catch \<^verbatim>\<open>SelectorError\<close> only; any other exception leaves the generator. The input is the
  sequence of component values (a string is first handed to the tokenizer of tinycss2,
  which is not part of this model), and the namespace mapping is the dict after
  \<^verbatim>\<open>namespaces or {}\<close>.
\<close>

definition yield_then :: "selector \<Rightarrow> selector list \<times> error option \<Rightarrow> selector list \<times> error option" where
  "yield_then sel rest = (sel # fst rest, snd rest)"

function parse_loop_with ::
  "logical_combination \<Rightarrow> TokenStream \<Rightarrow> namespaces \<Rightarrow> bool \<Rightarrow> bool \<Rightarrow>
   selector list \<times> error option" where
  "parse_loop_with plc tokens namespaces forgiving relative =
     (case next_token tokens of
        (None, tokens1) \<Rightarrow> ([], None)
      | (Some nxt, tokens1) \<Rightarrow>
          if nxt = LiteralToken '','' then
            (case parse_selector_with plc tokens1 namespaces relative of
               (Inr sel, tokens2) \<Rightarrow>
                 yield_then sel (parse_loop_with plc tokens2 namespaces forgiving relative)
             | (Inl exception, tokens2) \<Rightarrow>
                 if is_SelectorError exception then
                   (if \<not> forgiving then ([], Some exception)
                    else parse_loop_with plc tokens2 namespaces forgiving relative)
                 else ([], Some exception))
          else
            (if \<not> forgiving then ([], Some (SelectorError (Some nxt) Unexpected_type_token))
             else parse_loop_with plc tokens1 namespaces forgiving relative))"
  by pat_completeness auto
termination
proof (relation "measure (\<lambda>(plc, tokens, rest). length tokens)", goal_cases)
  case 1 show ?case by simp
next
  case (2 plc tokens namespaces forgiving relative x tokens1 nxt r tokens2 sel)
  then have "tokens \<noteq> []" "tokens1 = tl tokens"
    "tokens2 = snd (parse_selector_with plc tokens1 namespaces relative)"
    by (auto simp: next_token_eq) (metis snd_conv)
  then show ?case
    using parse_selector_with_suffix [of tokens1 tokens1 plc namespaces relative]
    by (cases tokens) (auto dest: suffix_length_le)
next
  case (3 plc tokens namespaces forgiving relative x tokens1 nxt r tokens2 exception)
  then have "tokens \<noteq> []" "tokens1 = tl tokens"
    "tokens2 = snd (parse_selector_with plc tokens1 namespaces relative)"
    by (auto simp: next_token_eq) (metis snd_conv)
  then show ?case
    using parse_selector_with_suffix [of tokens1 tokens1 plc namespaces relative]
    by (cases tokens) (auto dest: suffix_length_le)
next
  case (4 plc tokens namespaces forgiving relative x tokens1 nxt)
  then show ?case by (cases tokens) (auto simp: next_token_eq)
qed

declare parse_loop_with.simps [simp del]

definition parse_with ::
  "logical_combination \<Rightarrow> TokenStream \<Rightarrow> namespaces \<Rightarrow> bool \<Rightarrow> bool \<Rightarrow>
   selector list \<times> error option" where
  "parse_with plc input namespaces forgiving relative =
     (case parse_selector_with plc input namespaces relative of
        (Inr sel, tokens) \<Rightarrow> yield_then sel (parse_loop_with plc tokens namespaces forgiving relative)
      | (Inl exception, tokens) \<Rightarrow>
          if is_SelectorError exception then
            (if forgiving then ([], None) else ([], Some exception))
          else ([], Some exception))"

section \<open>Logical combinations\<close>

text \<open>
  \<^verbatim>\<open>parse_logical_combination\<close> calls \<^verbatim>\<open>parse\<close> on the arguments of the function token it
  is given. The parser calls it only on a token of the stream, so the recursion descends
  into the token: two callbacks that agree on the tokens of a stream give the same parse
  of that stream.
\<close>

definition agree :: "logical_combination \<Rightarrow> logical_combination \<Rightarrow> namespaces \<Rightarrow> token list \<Rightarrow> bool" where
  "agree plc plc' namespaces tokens = (\<forall>t \<in> set tokens. \<forall>name. plc t namespaces name = plc' t namespaces name)"

lemma agree_suffix: "agree plc plc' namespaces xs \<Longrightarrow> suffix ys xs \<Longrightarrow> agree plc plc' namespaces ys"
  unfolding agree_def by (auto dest: set_mono_suffix)

lemma parse_simple_selector_with_agree:
  assumes "agree plc plc' namespaces tokens"
  shows "parse_simple_selector_with plc tokens namespaces = parse_simple_selector_with plc' tokens namespaces"
proof (cases tokens)
  case Nil
  then show ?thesis by (simp add: parse_simple_selector_with_def)
next
  case (Cons t ts)
  show ?thesis
  proof (cases t)
    case (LiteralToken l)
    have "plc (FunctionBlock n ln a) namespaces name = plc' (FunctionBlock n ln a) namespaces name"
      if "peek ts = Some (FunctionBlock n ln a)" for n ln a name
      using that assms Cons unfolding agree_def by (cases ts) auto
    then show ?thesis
      unfolding Cons LiteralToken parse_simple_selector_with_def Let_def next_token_eq
      by (simp split: option.split token.split)
  qed (simp_all add: Cons parse_simple_selector_with_def Let_def next_token_eq)
qed

lemma parse_compound_loop_agree:
  "agree plc plc' namespaces tokens \<Longrightarrow>
   parse_compound_loop_with plc tokens namespaces acc = parse_compound_loop_with plc' tokens namespaces acc"
proof (induction plc tokens namespaces acc rule: parse_compound_loop_with.induct)
  case (1 plc tokens namespaces simple_selectors)
  obtain r tokens1 where p: "parse_simple_selector_with plc tokens namespaces = (r, tokens1)"
    by (cases "parse_simple_selector_with plc tokens namespaces")
  then have p': "parse_simple_selector_with plc' tokens namespaces = (r, tokens1)"
    using parse_simple_selector_with_agree [OF "1.prems"] by simp
  have "suffix tokens1 tokens"
    using parse_simple_selector_with_suffix [of tokens tokens plc namespaces] p by simp
  with "1.prems" have a: "agree plc plc' namespaces tokens1" by (rule agree_suffix)
  show ?case
    using p p' "1.IH" [OF p [symmetric] _ _ _ _ a]
    unfolding parse_compound_loop_with.simps [of plc tokens] parse_compound_loop_with.simps [of plc' tokens]
    by (auto split: sum.splits option.splits)
qed


lemma parse_compound_selector_with_agree:
  assumes "agree plc plc' namespaces tokens"
  shows "parse_compound_selector_with plc tokens namespaces =
         parse_compound_selector_with plc' tokens namespaces"
proof -
  have "suffix (snd (parse_type_selector tokens namespaces)) tokens"
    by (rule parse_type_selector_suffix) simp
  with assms have "agree plc plc' namespaces (snd (parse_type_selector tokens namespaces))"
    by (rule agree_suffix)
  then have "parse_compound_loop_with plc (snd (parse_type_selector tokens namespaces)) namespaces acc =
        parse_compound_loop_with plc' (snd (parse_type_selector tokens namespaces)) namespaces acc" for acc
    by (rule parse_compound_loop_agree)
  then show ?thesis
    unfolding parse_compound_selector_with_def
    by (cases "parse_type_selector tokens namespaces")
       (simp split: sum.splits)
qed

lemma parse_selector_loop_agree:
  "agree plc plc' namespaces tokens \<Longrightarrow>
   parse_selector_loop_with plc tokens namespaces relative ic result pseudo =
   parse_selector_loop_with plc' tokens namespaces relative ic result pseudo"
proof (induction plc tokens namespaces relative ic result pseudo rule: parse_selector_loop_with.induct)
  case (1 plc tokens namespaces relative initial_combinator result pseudo)
  obtain ws tokens1 where p1: "skip_whitespace tokens = (ws, tokens1)"
    by (cases "skip_whitespace tokens")
  obtain has_whitespace tokens2 where p2: "skip_comments ws tokens1 = (has_whitespace, tokens2)"
    by (cases "skip_comments ws tokens1")
  have s1: "suffix tokens1 tokens"
    using skip_suffix [of "[''whitespace'']" tokens] p1 by (simp add: skip_defs)
  have s2: "suffix tokens2 tokens"
    using skip_comments_suffix [OF s1, of ws] p2 by simp
  show ?case
  proof (cases "pseudo \<noteq> None \<or> next_combinator has_whitespace tokens2 = None")
    case True
    with p1 p2 show ?thesis
      unfolding parse_selector_loop_with.simps [of plc tokens] parse_selector_loop_with.simps [of plc' tokens]
      by (auto simp: Let_def)
  next
    case False
    then obtain combinator tokens3 where
      p3: "next_combinator has_whitespace tokens2 = Some (combinator, tokens3)" and ps: "pseudo = None"
      by auto
    have s3: "suffix tokens3 tokens" using p3 s2 by (rule next_combinator_suffix)
    obtain r tokens4 where p4: "parse_compound_selector_with plc tokens3 namespaces = (r, tokens4)"
      by (cases "parse_compound_selector_with plc tokens3 namespaces")
    have p4': "parse_compound_selector_with plc' tokens3 namespaces = (r, tokens4)"
      using parse_compound_selector_with_agree [OF agree_suffix [OF "1.prems" s3]] p4 by simp
    have s4: "suffix tokens4 tokens"
      using parse_compound_selector_with_suffix [OF s3, of plc namespaces] p4 by simp
    show ?thesis
    proof (cases r)
      case (Inl e)
      with p1 p2 p3 p4 p4' ps show ?thesis
        unfolding parse_selector_loop_with.simps [of plc tokens]
          parse_selector_loop_with.simps [of plc' tokens]
        by (simp add: Let_def)
    next
      case (Inr b)
      obtain compound pseudo1 where b: "b = (compound, pseudo1)" by (cases b)
      have "parse_selector_loop_with plc tokens4 namespaces relative initial_combinator
                (CombinedSelector result combinator compound) pseudo1 =
            parse_selector_loop_with plc' tokens4 namespaces relative initial_combinator
                (CombinedSelector result combinator compound) pseudo1"
        using "1.IH" [OF p1 [symmetric] p2 [symmetric] refl refl _ p3 refl p4 [symmetric] Inr
            b [symmetric] agree_suffix [OF "1.prems" s4]] ps
        by simp
      with p1 p2 p3 p4 p4' ps Inr b show ?thesis
        unfolding parse_selector_loop_with.simps [of plc tokens]
          parse_selector_loop_with.simps [of plc' tokens]
        by (simp add: Let_def)
    qed
  qed
qed

lemma parse_selector_with_agree:
  assumes "agree plc plc' namespaces tokens"
  shows "parse_selector_with plc tokens namespaces relative =
         parse_selector_with plc' tokens namespaces relative"
proof -
  define tokens1 where "tokens1 = snd (skip_whitespace_and_comment tokens)"
  define ict where "ict = (if relative then
               (let (c, tokens') =
                      (case peek tokens1 of
                         None \<Rightarrow> ('' '', tokens1)
                       | Some pk \<Rightarrow>
                           if tok_in (Some pk) [''>'', ''+'', ''~'']
                           then (token_value pk, snd (next_token tokens1))
                           else ('' '', tokens1))
                in (c, snd (skip_whitespace_and_comment tokens')))
             else ([], tokens1))"
  have s1: "suffix tokens1 tokens"
    unfolding tokens1_def skip_defs by (rule skip_suffix)
  have s2: "suffix (snd ict) tokens"
    unfolding ict_def skip_defs Let_def next_token_eq
    using s1 by (auto intro!: skip_suffix_trans suffix_tl_trans split: option.splits)
  obtain r tokens3 where p3: "parse_compound_selector_with plc (snd ict) namespaces = (r, tokens3)"
    by (cases "parse_compound_selector_with plc (snd ict) namespaces")
  have p3': "parse_compound_selector_with plc' (snd ict) namespaces = (r, tokens3)"
    using parse_compound_selector_with_agree [OF agree_suffix [OF assms s2]] p3 by simp
  have s3: "suffix tokens3 tokens"
    using parse_compound_selector_with_suffix [OF s2, of plc namespaces] p3 by simp
  have e: "parse_selector_with f tokens namespaces relative =
     (case parse_compound_selector_with f (snd ict) namespaces of
           (Inl e, tokens3) \<Rightarrow> (Inl e, tokens3)
         | (Inr (result, pseudo), tokens3) \<Rightarrow>
             parse_selector_loop_with f tokens3 namespaces relative (fst ict) result pseudo)" for f
    unfolding parse_selector_with_def ict_def tokens1_def Let_def
    by (simp add: case_prod_beta)
  show ?thesis
    unfolding e p3 p3'
    using parse_selector_loop_agree [OF agree_suffix [OF assms s3]]
    by (auto split: sum.splits)
qed

lemma parse_loop_agree:
  "agree plc plc' namespaces tokens \<Longrightarrow>
   parse_loop_with plc tokens namespaces forgiving relative =
   parse_loop_with plc' tokens namespaces forgiving relative"
proof (induction plc tokens namespaces forgiving relative rule: parse_loop_with.induct)
  case (1 plc tokens namespaces forgiving relative)
  show ?case
  proof (cases tokens)
    case Nil
    then show ?thesis
      unfolding parse_loop_with.simps [of plc tokens] parse_loop_with.simps [of plc' tokens]
      by (simp add: next_token_eq)
  next
    case (Cons nxt tokens1)
    have n: "next_token tokens = (Some nxt, tokens1)" by (simp add: Cons next_token_eq)
    have a1: "agree plc plc' namespaces tokens1"
      using "1.prems" Cons by (simp add: agree_def)
    obtain r tokens2 where p: "parse_selector_with plc tokens1 namespaces relative = (r, tokens2)"
      by (cases "parse_selector_with plc tokens1 namespaces relative")
    have p': "parse_selector_with plc' tokens1 namespaces relative = (r, tokens2)"
      using parse_selector_with_agree [OF a1] p by simp
    have "suffix tokens2 tokens1"
      using parse_selector_with_suffix [of tokens1 tokens1 plc namespaces relative] p by simp
    with a1 have a2: "agree plc plc' namespaces tokens2" by (rule agree_suffix)
    show ?thesis
      using n p p' "1.IH"(2) [OF n [symmetric] refl _ p [symmetric] _ a2]
        "1.IH"(1) [OF n [symmetric] refl _ p [symmetric] _ _ _ a2]
        "1.IH"(3) [OF n [symmetric] refl _ _ a1]
      unfolding parse_loop_with.simps [of plc tokens] parse_loop_with.simps [of plc' tokens]
      by (auto split: sum.splits)
  qed
qed

lemma parse_with_cong [fundef_cong]:
  assumes "input = input'" "namespaces = namespaces'" "forgiving = forgiving'"
    "relative = relative'"
    "\<And>t name. t \<in> set input' \<Longrightarrow> plc t namespaces' name = plc' t namespaces' name"
  shows "parse_with plc input namespaces forgiving relative =
         parse_with plc' input' namespaces' forgiving' relative'"
proof -
  have a: "agree plc plc' namespaces input" using assms by (simp add: agree_def)
  obtain r tokens where p: "parse_selector_with plc input namespaces relative = (r, tokens)"
    by (cases "parse_selector_with plc input namespaces relative")
  have p': "parse_selector_with plc' input namespaces relative = (r, tokens)"
    using parse_selector_with_agree [OF a] p by simp
  have "suffix tokens input"
    using parse_selector_with_suffix [of input input plc namespaces relative] p by simp
  with a have "agree plc plc' namespaces tokens" by (rule agree_suffix)
  then have "parse_loop_with plc tokens namespaces forgiving relative =
             parse_loop_with plc' tokens namespaces forgiving relative"
    by (rule parse_loop_agree)
  with p p' assms(1-4) show ?thesis
    by (simp add: parse_with_def split: sum.splits)
qed

text \<open>
  The source assigns \<^verbatim>\<open>forgiving\<close>, \<^verbatim>\<open>relative\<close> and \<^verbatim>\<open>selector_class\<close> by the name;
  under a fifth name \<^verbatim>\<open>selector_class\<close> would be unbound. The list comprehension runs
  the generator to its end, so an exception of \<^verbatim>\<open>parse\<close> is raised here and the
  selectors yielded before it are lost. \<^verbatim>\<open>.arguments\<close> of a token that is no function
  block is an \<^verbatim>\<open>AttributeError\<close>.
\<close>

fun parse_logical_combination :: "token \<Rightarrow> namespaces \<Rightarrow> string \<Rightarrow> error + simple_selector" where
  "parse_logical_combination (FunctionBlock n ln arguments) namespaces name =
     (let (forgiving, relative, selector_class) =
            (if name = ''is'' then (True, False, Some MatchesAnySelector)
             else if name = ''where'' then (True, False, Some SpecificityAdjustmentSelector)
             else if name = ''not'' then (False, False, Some NegationSelector)
             else if name = ''has'' then (True, True, Some RelationalSelector)
             else (True, False, None))
      in case parse_with parse_logical_combination arguments namespaces forgiving relative of
           (yielded, Some exception) \<Rightarrow> Inl exception
         | (yielded, None) \<Rightarrow>
             (let selectors = filter (\<lambda>sel. pseudo_element sel = None) yielded
              in case selector_class of
                   None \<Rightarrow> Inl UnboundLocalError
                 | Some cls \<Rightarrow> Inr (cls selectors)))"
| "parse_logical_combination t namespaces name = Inl AttributeError"

declare parse_logical_combination.simps(1) [simp del]

section \<open>The parser\<close>

text \<open>
  The functions of the source, with \<open>parse_logical_combination\<close> in place of the parameter.
\<close>

definition parse_simple_selector ::
  "TokenStream \<Rightarrow> namespaces \<Rightarrow>
   (error + simple_selector option \<times> string option) \<times> TokenStream" where
  "parse_simple_selector = parse_simple_selector_with parse_logical_combination"

definition parse_compound_selector ::
  "TokenStream \<Rightarrow> namespaces \<Rightarrow> (error + tree \<times> string option) \<times> TokenStream" where
  "parse_compound_selector = parse_compound_selector_with parse_logical_combination"

definition parse_selector_loop ::
  "TokenStream \<Rightarrow> namespaces \<Rightarrow> bool \<Rightarrow> string \<Rightarrow> tree \<Rightarrow> string option \<Rightarrow>
   (error + selector) \<times> TokenStream" where
  "parse_selector_loop = parse_selector_loop_with parse_logical_combination"

definition parse_selector ::
  "TokenStream \<Rightarrow> namespaces \<Rightarrow> bool \<Rightarrow> (error + selector) \<times> TokenStream" where
  "parse_selector = parse_selector_with parse_logical_combination"

definition parse_loop ::
  "TokenStream \<Rightarrow> namespaces \<Rightarrow> bool \<Rightarrow> bool \<Rightarrow> selector list \<times> error option" where
  "parse_loop = parse_loop_with parse_logical_combination"

definition parse ::
  "token list \<Rightarrow> namespaces \<Rightarrow> bool \<Rightarrow> bool \<Rightarrow> selector list \<times> error option" where
  "parse = parse_with parse_logical_combination"

definition parse_compound_loop ::
  "TokenStream \<Rightarrow> namespaces \<Rightarrow> simple_selector list \<Rightarrow>
   (error + simple_selector list \<times> string option) \<times> TokenStream" where
  "parse_compound_loop = parse_compound_loop_with parse_logical_combination"

text \<open>
  Their equations, in the shape of the source: these are the functions the claims are about.
\<close>

lemma next_token_simps [simp]:
  "next_token [] = (None, [])" "next_token (t # ts) = (Some t, ts)"
  by (simp_all add: next_token_def)

lemma parse_eq:
  "parse input namespaces forgiving relative =
     (case parse_selector input namespaces relative of
        (Inr sel, tokens) \<Rightarrow> yield_then sel (parse_loop tokens namespaces forgiving relative)
      | (Inl exception, tokens) \<Rightarrow>
          if is_SelectorError exception then
            (if forgiving then ([], None) else ([], Some exception))
          else ([], Some exception))"
  unfolding parse_def parse_selector_def parse_loop_def
  by (rule parse_with_def)

lemma parse_loop_eq:
  "parse_loop tokens namespaces forgiving relative =
     (case next_token tokens of
        (None, tokens1) \<Rightarrow> ([], None)
      | (Some nxt, tokens1) \<Rightarrow>
          if nxt = LiteralToken '','' then
            (case parse_selector tokens1 namespaces relative of
               (Inr sel, tokens2) \<Rightarrow>
                 yield_then sel (parse_loop tokens2 namespaces forgiving relative)
             | (Inl exception, tokens2) \<Rightarrow>
                 if is_SelectorError exception then
                   (if \<not> forgiving then ([], Some exception)
                    else parse_loop tokens2 namespaces forgiving relative)
                 else ([], Some exception))
          else
            (if \<not> forgiving then ([], Some (SelectorError (Some nxt) Unexpected_type_token))
             else parse_loop tokens1 namespaces forgiving relative))"
  unfolding parse_loop_def parse_selector_def
  by (rule parse_loop_with.simps)

lemma parse_selector_eq:
  "parse_selector tokens namespaces relative =
     (let tokens1 = snd (skip_whitespace_and_comment tokens);
          (initial_combinator, tokens2) =
            (if relative then
               (let (c, tokens') =
                      (case peek tokens1 of
                         None \<Rightarrow> ('' '', tokens1)
                       | Some pk \<Rightarrow>
                           if tok_in (Some pk) [''>'', ''+'', ''~'']
                           then (token_value pk, snd (next_token tokens1))
                           else ('' '', tokens1))
                in (c, snd (skip_whitespace_and_comment tokens')))
             else ([], tokens1))
      in case parse_compound_selector tokens2 namespaces of
           (Inl e, tokens3) \<Rightarrow> (Inl e, tokens3)
         | (Inr (result, pseudo), tokens3) \<Rightarrow>
             parse_selector_loop tokens3 namespaces relative initial_combinator result pseudo)"
  unfolding parse_selector_def parse_compound_selector_def parse_selector_loop_def
  by (rule parse_selector_with_def)

lemma parse_selector_loop_eq:
  "parse_selector_loop tokens namespaces relative initial_combinator result pseudo =
     (case skip_whitespace tokens of
        (ws, tokens1) \<Rightarrow>
          (case skip_comments ws tokens1 of
             (has_whitespace, tokens2) \<Rightarrow>
               (let sel = Selector_init result pseudo;
                    sel = (if relative then RelativeSelector initial_combinator sel else sel)
                in if pseudo \<noteq> None then (Inr sel, tokens2)
                   else
                     (case next_combinator has_whitespace tokens2 of
                        None \<Rightarrow> (Inr sel, tokens2)
                      | Some (combinator, tokens3) \<Rightarrow>
                          (case parse_compound_selector tokens3 namespaces of
                             (Inl e, tokens4) \<Rightarrow> (Inl e, tokens4)
                           | (Inr (compound, pseudo1), tokens4) \<Rightarrow>
                               parse_selector_loop tokens4 namespaces relative
                                 initial_combinator
                                 (CombinedSelector result combinator compound) pseudo1)))))"
  unfolding parse_selector_loop_def parse_compound_selector_def
  by (rule parse_selector_loop_with.simps)

lemma parse_compound_selector_eq:
  "parse_compound_selector tokens namespaces =
     (case parse_type_selector tokens namespaces of
        (Inl e, tokens1) \<Rightarrow> (Inl e, tokens1)
      | (Inr type_selectors, tokens1) \<Rightarrow>
          (case parse_compound_loop tokens1 namespaces
                  (case type_selectors of None \<Rightarrow> [] | Some sels \<Rightarrow> sels) of
             (Inl e, tokens2) \<Rightarrow> (Inl e, tokens2)
           | (Inr (simple_selectors, pseudo), tokens2) \<Rightarrow>
               if simple_selectors \<noteq> [] \<or> (type_selectors, pseudo) \<noteq> (None, None)
               then (Inr (CompoundSelector simple_selectors, pseudo), tokens2)
               else (Inl (SelectorError (peek tokens2) Expected_compound_selector), tokens2)))"
  unfolding parse_compound_selector_def parse_compound_loop_def
  by (rule parse_compound_selector_with_def)

lemma parse_compound_loop_eq:
  "parse_compound_loop tokens namespaces simple_selectors =
     (case parse_simple_selector tokens namespaces of
        (Inl e, tokens1) \<Rightarrow> (Inl e, tokens1)
      | (Inr (simple_selector, pseudo), tokens1) \<Rightarrow>
          (case simple_selector of
             None \<Rightarrow> (Inr (simple_selectors, pseudo), tokens1)
           | Some s \<Rightarrow>
               if pseudo \<noteq> None then (Inr (simple_selectors, pseudo), tokens1)
               else parse_compound_loop tokens1 namespaces (simple_selectors @ [s])))"
  unfolding parse_compound_loop_def parse_simple_selector_def
  by (rule parse_compound_loop_with.simps)

lemma parse_logical_combination_eq:
  "parse_logical_combination (FunctionBlock n ln arguments) namespaces name =
     (let (forgiving, relative, selector_class) =
            (if name = ''is'' then (True, False, Some MatchesAnySelector)
             else if name = ''where'' then (True, False, Some SpecificityAdjustmentSelector)
             else if name = ''not'' then (False, False, Some NegationSelector)
             else if name = ''has'' then (True, True, Some RelationalSelector)
             else (True, False, None))
      in case parse arguments namespaces forgiving relative of
           (yielded, Some exception) \<Rightarrow> Inl exception
         | (yielded, None) \<Rightarrow>
             (let selectors = filter (\<lambda>sel. pseudo_element sel = None) yielded
              in case selector_class of
                   None \<Rightarrow> Inl UnboundLocalError
                 | Some cls \<Rightarrow> Inr (cls selectors)))"
  unfolding parse_def by (rule parse_logical_combination.simps)

section \<open>One round of the selector loop\<close>

text \<open>
  Three pieces of \<^verbatim>\<open>parse_selector\<close> under names of their own, so that a round of its loop
  can be stated: \<open>selector_start\<close> is the code before the first compound selector (it
  gives \<^verbatim>\<open>initial_combinator\<close> and the stream), \<open>skip_separators\<close> is the skipping of
  whitespace and comments at the head of a round (it gives \<^verbatim>\<open>has_whitespace\<close> and the
  stream), and \<open>wrap_selector\<close> is the selector a round builds from \<^verbatim>\<open>result\<close> and
  \<^verbatim>\<open>pseudo_element\<close>. The lemmas say that \<open>parse_selector\<close> and its loop are composed of
  them: a round returns, goes on with a \<open>CombinedSelector\<close>, or raises.
\<close>

definition selector_start :: "bool \<Rightarrow> TokenStream \<Rightarrow> string \<times> TokenStream" where
  "selector_start relative tokens =
     (let tokens1 = snd (skip_whitespace_and_comment tokens)
      in if relative then
           (let (c, tokens') =
                  (case peek tokens1 of
                     None \<Rightarrow> ('' '', tokens1)
                   | Some pk \<Rightarrow>
                       if tok_in (Some pk) [''>'', ''+'', ''~'']
                       then (token_value pk, snd (next_token tokens1))
                       else ('' '', tokens1))
            in (c, snd (skip_whitespace_and_comment tokens')))
         else ([], tokens1))"

definition skip_separators :: "TokenStream \<Rightarrow> bool \<times> TokenStream" where
  "skip_separators tokens =
     (case skip_whitespace tokens of (ws, tokens1) \<Rightarrow> skip_comments ws tokens1)"

definition wrap_selector :: "bool \<Rightarrow> string \<Rightarrow> tree \<Rightarrow> string option \<Rightarrow> selector" where
  "wrap_selector relative initial_combinator result pseudo =
     (if relative then RelativeSelector initial_combinator (Selector_init result pseudo)
      else Selector_init result pseudo)"

lemma parse_selector_start:
  "parse_selector tokens namespaces relative =
     (case parse_compound_selector (snd (selector_start relative tokens)) namespaces of
        (Inl e, tokens3) \<Rightarrow> (Inl e, tokens3)
      | (Inr (result, pseudo), tokens3) \<Rightarrow>
          parse_selector_loop tokens3 namespaces relative (fst (selector_start relative tokens))
            result pseudo)"
  unfolding parse_selector_eq selector_start_def Let_def
  by (simp add: case_prod_beta)

lemma parse_selector_loop_return:
  assumes "skip_separators tokens = (has_whitespace, tokens2)"
    and "pseudo \<noteq> None \<or> next_combinator has_whitespace tokens2 = None"
  shows "parse_selector_loop tokens namespaces relative ic result pseudo =
         (Inr (wrap_selector relative ic result pseudo), tokens2)"
  using assms unfolding skip_separators_def wrap_selector_def
  by (subst parse_selector_loop_eq) (auto simp: Let_def split: prod.splits)

lemma parse_selector_loop_step:
  assumes "skip_separators tokens = (has_whitespace, tokens2)"
    and "next_combinator has_whitespace tokens2 = Some (combinator, tokens3)"
    and "parse_compound_selector tokens3 namespaces = (Inr (compound, pseudo), tokens4)"
  shows "parse_selector_loop tokens namespaces relative ic result None =
         parse_selector_loop tokens4 namespaces relative ic
           (CombinedSelector result combinator compound) pseudo"
  using assms unfolding skip_separators_def
  by (subst parse_selector_loop_eq) (auto simp: Let_def split: prod.splits)

lemma parse_selector_loop_error:
  assumes "skip_separators tokens = (has_whitespace, tokens2)"
    and "next_combinator has_whitespace tokens2 = Some (combinator, tokens3)"
    and "parse_compound_selector tokens3 namespaces = (Inl e, tokens4)"
  shows "parse_selector_loop tokens namespaces relative ic result None = (Inl e, tokens4)"
  using assms unfolding skip_separators_def
  by (subst parse_selector_loop_eq) (auto simp: Let_def split: prod.splits)

lemma pseudo_element_wrap_selector [simp]:
  "pseudo_element (wrap_selector relative ic result pseudo) = pseudo"
  by (simp add: wrap_selector_def)

lemma parsed_tree_wrap_selector [simp]:
  "parsed_tree (wrap_selector relative ic result pseudo) = result"
  by (simp add: wrap_selector_def)

lemma skip_comments_no_comment:
  "token_type t \<noteq> ''comment'' \<Longrightarrow> skip_comments h (t # r) = (h, t # r)"
  by (subst skip_comments.simps) (simp add: skip_comment_def)

lemma skip_comments_Nil: "skip_comments h [] = (h, [])"
  by (subst skip_comments.simps) (simp add: skip_comment_def)

lemma skip_separators_Nil: "skip_separators [] = (False, [])"
  by (simp add: skip_separators_def skip_whitespace_def skip_comments_Nil)

lemma skip_separators_whitespace:
  "token_type t \<noteq> ''comment'' \<Longrightarrow> token_type t \<noteq> ''whitespace'' \<Longrightarrow>
   skip_separators (WhitespaceToken # t # r) = (True, t # r)"
  by (simp add: skip_separators_def skip_whitespace_def skip_comments_no_comment)

section \<open>Specificity\<close>

text \<open>
  Specificities are compared lexicographically, most significant component first. A maximum
  of a list is a member that every member is below; there is at most one.
\<close>

definition lex_le :: "specificity \<Rightarrow> specificity \<Rightarrow> bool" where
  "lex_le x y =
     (case (x, y) of
        ((a1, b1, c1), (a2, b2, c2)) \<Rightarrow>
          a1 < a2 \<or> (a1 = a2 \<and> (b1 < b2 \<or> (b1 = b2 \<and> c1 \<le> c2))))"

definition is_lex_max :: "specificity \<Rightarrow> specificity list \<Rightarrow> bool" where
  "is_lex_max m specs = (m \<in> set specs \<and> list_all (\<lambda>s. lex_le s m) specs)"

lemma lex_le_refl: "lex_le x x"
  by (cases x) (simp add: lex_le_def)

lemma lex_le_trans: "lex_le x y \<Longrightarrow> lex_le y z \<Longrightarrow> lex_le x z"
  by (cases x; cases y; cases z) (auto simp: lex_le_def)

lemma lex_le_antisym: "lex_le x y \<Longrightarrow> lex_le y x \<Longrightarrow> x = y"
  by (cases x; cases y) (auto simp: lex_le_def)

lemma tuple_gt_lex_le: "tuple_gt x y \<Longrightarrow> lex_le y x"
  by (cases x; cases y) (auto simp: lex_le_def split: if_splits)

lemma not_tuple_gt_lex_le: "\<not> tuple_gt x y \<Longrightarrow> lex_le x y"
  by (cases x; cases y) (auto simp: lex_le_def split: if_splits)

lemma py_max_from_mem: "py_max_from m items \<in> set (m # items)"
  by (induction items arbitrary: m) auto

lemma py_max_from_ge_first: "lex_le m (py_max_from m items)"
proof (induction items arbitrary: m)
  case Nil
  show ?case by (simp add: lex_le_refl)
next
  case (Cons item items)
  show ?case
  proof (cases "tuple_gt item m")
    case True
    then have "lex_le m item" by (rule tuple_gt_lex_le)
    then show ?thesis using Cons [of item] True by (auto intro: lex_le_trans)
  next
    case False
    then show ?thesis using Cons [of m] by simp
  qed
qed

lemma py_max_from_ge_items: "x \<in> set items \<Longrightarrow> lex_le x (py_max_from m items)"
proof (induction items arbitrary: m)
  case Nil
  then show ?case by simp
next
  case (Cons item items)
  show ?case
  proof (cases "x = item")
    case True
    show ?thesis
    proof (cases "tuple_gt item m")
      case True
      with \<open>x = item\<close> show ?thesis using py_max_from_ge_first [of item items] by simp
    next
      case False
      then have "lex_le item m" by (rule not_tuple_gt_lex_le)
      with False \<open>x = item\<close> show ?thesis
        using py_max_from_ge_first [of m items] by (auto intro: lex_le_trans)
    qed
  next
    case False
    with Cons.prems have "x \<in> set items" by simp
    then show ?thesis using Cons.IH by simp
  qed
qed

lemma py_max_from_is_lex_max: "is_lex_max (py_max_from m items) (m # items)"
  unfolding is_lex_max_def list_all_iff
  using py_max_from_mem [of m items] py_max_from_ge_first [of m items]
  by (auto intro: py_max_from_ge_items)

lemma is_lex_max_unique: "is_lex_max m specs \<Longrightarrow> is_lex_max m' specs \<Longrightarrow> m = m'"
  unfolding is_lex_max_def list_all_iff by (auto intro: lex_le_antisym)

lemma selector_list_max_Nil: "selector_list_max [] = (0, 0, 0)"
  by (simp add: selector_list_max_def)

lemma selector_list_max_Cons:
  "is_lex_max (selector_list_max (s # ss)) (map selector_specificity (s # ss))"
  by (simp add: selector_list_max_def py_max_from_is_lex_max)

text \<open>
  Claim C3. The specificity of a \<open>NegationSelector\<close> (\<^verbatim>\<open>:not\<close>), a \<open>RelationalSelector\<close>
  (\<^verbatim>\<open>:has\<close>) and a \<open>MatchesAnySelector\<close> (\<^verbatim>\<open>:is\<close>) is \<open>(0, 0, 0)\<close> when its list is
  empty, and otherwise the lexicographic maximum of the specificities of the selectors in
  its list; the specificity of a \<open>SpecificityAdjustmentSelector\<close> (\<^verbatim>\<open>:where\<close>) is
  \<open>(0, 0, 0)\<close> whatever its list.
\<close>

theorem logical_combination_specificity:
  "simple_specificity (NegationSelector []) = (0, 0, 0) \<and>
   simple_specificity (RelationalSelector []) = (0, 0, 0) \<and>
   simple_specificity (MatchesAnySelector []) = (0, 0, 0) \<and>
   is_lex_max (simple_specificity (NegationSelector (s # ss)))
     (map selector_specificity (s # ss)) \<and>
   is_lex_max (simple_specificity (RelationalSelector (s # ss)))
     (map selector_specificity (s # ss)) \<and>
   is_lex_max (simple_specificity (MatchesAnySelector (s # ss)))
     (map selector_specificity (s # ss)) \<and>
   simple_specificity (SpecificityAdjustmentSelector selector_list) = (0, 0, 0)"
  using selector_list_max_Cons [of s ss] by (simp add: selector_list_max_Nil)

theorem logical_combination_specificity_witness:
  "is_lex_max (1, 0, 0) [(0, 1, 0), (1, 0, 0)] \<and>
   simple_specificity (NegationSelector
     [Selector_init (CompoundSelector [ClassSelector ''a'']) None,
      Selector_init (CompoundSelector [IDSelector ''b'']) None]) = (1, 0, 0) \<and>
   simple_specificity (SpecificityAdjustmentSelector
     [Selector_init (CompoundSelector [ClassSelector ''a'']) None,
      Selector_init (CompoundSelector [IDSelector ''b'']) None]) = (0, 0, 0)"
  using logical_combination_specificity
    [of "Selector_init (CompoundSelector [ClassSelector ''a'']) None"
        "[Selector_init (CompoundSelector [IDSelector ''b'']) None]"
        "[Selector_init (CompoundSelector [ClassSelector ''a'']) None,
          Selector_init (CompoundSelector [IDSelector ''b'']) None]"]
  by (simp add: Selector_init_def sum_columns_def selector_list_max_def is_lex_max_def lex_le_def)

text \<open>
  Claim C5. A \<open>Selector\<close> built without a pseudo-element has the specificity of its tree;
  built with one, it has the tree's specificity with 1 added to the third component; a
  \<open>CombinedSelector\<close> has the component-wise sum of the specificities of its left and right
  subtrees.
\<close>

theorem selector_specificity_composes:
  "selector_specificity (Selector_init t None) = tree_specificity t \<and>
   selector_specificity (Selector_init t (Some p)) =
     (fst (tree_specificity t), fst (snd (tree_specificity t)),
      snd (snd (tree_specificity t)) + 1) \<and>
   tree_specificity (CombinedSelector left combinator right) =
     (fst (tree_specificity left) + fst (tree_specificity right),
      fst (snd (tree_specificity left)) + fst (snd (tree_specificity right)),
      snd (snd (tree_specificity left)) + snd (snd (tree_specificity right)))"
  by (simp add: Selector_init_def split: prod.splits)

text \<open>The selector \<^verbatim>\<open>a::before\<close> has specificity \<open>(0, 0, 2)\<close>.\<close>

lemma a_before_specificity:
  "map selector_specificity
     (fst (parse [IdentToken ''a'' ''a'', LiteralToken '':'', LiteralToken '':'',
                  IdentToken ''before'' ''before''] Map.empty False False)) = [(0, 0, 2)]"
  by code_simp

theorem selector_specificity_composes_witness:
  "selector_specificity
     (Selector_init (CompoundSelector [LocalNameSelector ''a'' ''a'']) (Some ''before'')) =
   (0, 0, 2) \<and>
   tree_specificity
     (CombinedSelector (CompoundSelector [IDSelector ''x'']) ''>''
        (CompoundSelector [ClassSelector ''y'', LocalNameSelector ''a'' ''a''])) = (1, 1, 1)"
  using selector_specificity_composes
    [of "CompoundSelector [LocalNameSelector ''a'' ''a'']" "''before''"
        "CompoundSelector [IDSelector ''x'']" "''>''"
        "CompoundSelector [ClassSelector ''y'', LocalNameSelector ''a'' ''a'']"]
  by (simp add: sum_columns_def)

section \<open>Hash tokens that are not identifiers\<close>

lemma parse_simple_selector_invalid_hash:
  "parse_simple_selector (HashToken v False # rest) namespaces =
   (Inr (None, None), HashToken v False # rest)"
  by (simp add: parse_simple_selector_def parse_simple_selector_with_def)

lemma parse_compound_loop_invalid_hash:
  "parse_compound_loop (HashToken v False # rest) namespaces simple_selectors =
   (Inr (simple_selectors, None), HashToken v False # rest)"
  by (subst parse_compound_loop_eq) (simp add: parse_simple_selector_invalid_hash)

lemma parse_compound_selector_invalid_hash:
  "parse_compound_selector (HashToken v False # rest) namespaces =
   (Inl (SelectorError (Some (HashToken v False)) Expected_compound_selector),
    HashToken v False # rest)"
  by (simp add: parse_compound_selector_eq parse_type_selector_def parse_qualified_name_def
      skip_whitespace_def parse_compound_loop_invalid_hash)

lemma parse_selector_invalid_hash:
  "parse_selector (HashToken v False # rest) namespaces relative =
   (Inl (SelectorError (Some (HashToken v False)) Expected_compound_selector),
    HashToken v False # rest)"
  by (simp add: parse_selector_eq skip_whitespace_and_comment_def tok_in_def Let_def
      parse_compound_selector_invalid_hash)

text \<open>
  Claim C10. On a hash token whose \<^verbatim>\<open>is_identifier\<close> flag is false,
  \<^verbatim>\<open>parse_simple_selector\<close> returns \<^verbatim>\<open>(None, None)\<close> and leaves the token in the stream: no
  \<open>IDSelector\<close>, no error. That ends the loop of the compound selector. A selector that
  consists of such a hash token alone fails, in strict mode, with the error
  \<^verbatim>\<open>expected a compound selector\<close>, which carries the hash token.
\<close>

theorem invalid_hash_is_no_simple_selector:
  "parse_simple_selector (HashToken v False # rest) namespaces =
     (Inr (None, None), HashToken v False # rest) \<and>
   parse_compound_loop (HashToken v False # rest) namespaces simple_selectors =
     (Inr (simple_selectors, None), HashToken v False # rest) \<and>
   parse [HashToken v False] namespaces False relative =
     ([], Some (SelectorError (Some (HashToken v False)) Expected_compound_selector))"
  by (simp add: parse_simple_selector_invalid_hash parse_compound_loop_invalid_hash
      parse_eq parse_selector_invalid_hash)

section \<open>Namespace prefixes\<close>

text \<open>
  Claim C7. For every namespace mapping: a prefix the mapping defines, as in \<^verbatim>\<open>svg|rect\<close>,
  resolves to the URI the mapping gives it, with the local name that follows the bar;
  \<^verbatim>\<open>|rect\<close> resolves to the empty string (no namespace) with local name \<^verbatim>\<open>rect\<close>; a
  prefix the mapping lacks, as in \<^verbatim>\<open>foo|rect\<close>, raises the \<^verbatim>\<open>SelectorError\<close> for an
  undefined namespace prefix, which carries the prefix token.
\<close>

theorem qualified_name_resolution:
  "(namespaces (Some pfx) = Some uri \<longrightarrow>
      parse_qualified_name
        (IdentToken pfx lower_pfx # LiteralToken ''|'' # IdentToken name lower_name # rest)
        namespaces is_attribute =
      (Inr (Some (Some uri, Some (name, lower_name))), rest)) \<and>
   parse_qualified_name (LiteralToken ''|'' # IdentToken name lower_name # rest)
        namespaces is_attribute =
      (Inr (Some (Some [], Some (name, lower_name))), rest) \<and>
   (namespaces (Some pfx) = None \<longrightarrow>
      parse_qualified_name (IdentToken pfx lower_pfx # LiteralToken ''|'' # rest)
        namespaces is_attribute =
      (Inl (SelectorError (Some (IdentToken pfx lower_pfx)) Undefined_namespace_prefix),
       rest))"
  by (simp add: parse_qualified_name_def qualified_name_local_def tok_eq_def)

theorem qualified_name_resolution_witness:
  "parse_qualified_name
     [IdentToken ''svg'' ''svg'', LiteralToken ''|'', IdentToken ''rect'' ''rect'']
     [Some ''svg'' \<mapsto> ''http://www.w3.org/2000/svg''] False =
     (Inr (Some (Some ''http://www.w3.org/2000/svg'', Some (''rect'', ''rect''))), []) \<and>
   parse_qualified_name [LiteralToken ''|'', IdentToken ''rect'' ''rect'']
     [Some ''svg'' \<mapsto> ''http://www.w3.org/2000/svg''] False =
     (Inr (Some (Some [], Some (''rect'', ''rect''))), []) \<and>
   parse_qualified_name
     [IdentToken ''foo'' ''foo'', LiteralToken ''|'', IdentToken ''rect'' ''rect'']
     [Some ''svg'' \<mapsto> ''http://www.w3.org/2000/svg''] False =
     (Inl (SelectorError (Some (IdentToken ''foo'' ''foo'')) Undefined_namespace_prefix),
      [IdentToken ''rect'' ''rect''])"
  using qualified_name_resolution
    [of "[Some ''svg'' \<mapsto> ''http://www.w3.org/2000/svg'']" "''svg''"
        "''http://www.w3.org/2000/svg''" "''svg''" "''rect''" "''rect''" "[]" False]
    qualified_name_resolution
    [of "[Some ''svg'' \<mapsto> ''http://www.w3.org/2000/svg'']" "''foo''"
        "''http://www.w3.org/2000/svg''" "''foo''" "''rect''" "''rect''"
        "[IdentToken ''rect'' ''rect'']" False]
  by simp

text \<open>As a type selector, \<^verbatim>\<open>svg|rect\<close> is the local name and the namespace URI.\<close>

lemma svg_rect_selector:
  "parse [IdentToken ''svg'' ''svg'', LiteralToken ''|'', IdentToken ''rect'' ''rect'']
     (map_of [(Some ''svg'', ''http://www.w3.org/2000/svg'')]) False False =
   ([Selector_init
       (CompoundSelector [LocalNameSelector ''rect'' ''rect'',
                          NamespaceSelector ''http://www.w3.org/2000/svg'']) None], None)"
  by code_simp

section \<open>Pseudo-elements inside logical combinations\<close>





text \<open>The same argument under each of the four names, and \<^verbatim>\<open>:not(::before)\<close> as a selector.\<close>

lemma before_dropped_by_all_four:
  "map (\<lambda>name. parse_logical_combination
          (FunctionBlock name name
             [LiteralToken '':'', LiteralToken '':'', IdentToken ''before'' ''before''])
          Map.empty name)
     [''is'', ''where'', ''not'', ''has''] =
   [Inr (MatchesAnySelector []), Inr (SpecificityAdjustmentSelector []),
    Inr (NegationSelector []), Inr (RelationalSelector [])]"
  by code_simp

lemma not_before_selector:
  "parse [LiteralToken '':'',
          FunctionBlock ''not'' ''not''
            [LiteralToken '':'', LiteralToken '':'', IdentToken ''before'' ''before'']]
     Map.empty False False =
   ([Selector (CompoundSelector [NegationSelector []]) None (0, 0, 0)], None)"
  by code_simp

section \<open>Attribute selectors in brackets\<close>

lemma parse_attribute_selector_exhausts:
  "parse_attribute_selector tokens namespaces = (Inr node, rest) \<Longrightarrow> rest = []"
  unfolding parse_attribute_selector_def Let_def
  by (auto simp: next_token_eq split: prod.splits sum.splits option.splits list.splits)

lemma parse_attribute_selector_trailing:
  assumes "attribute_selector_parts tokens namespaces = (Inr parts, tokens1)"
    and "snd (skip_whitespace tokens1) = nxt # rest"
  shows "parse_attribute_selector tokens namespaces =
         (Inl (SelectorError (Some nxt) Expected_closing_bracket), rest)"
  using assms unfolding parse_attribute_selector_def Let_def
  by (cases parts) simp

text \<open>
  Claim C8. \<^verbatim>\<open>[ns|attr~="val"]\<close> is an \<open>AttributeSelector\<close> with operator \<^verbatim>\<open>~=\<close>, value
  \<^verbatim>\<open>val\<close> and the namespace the mapping gives the prefix; \<^verbatim>\<open>[attr]\<close> has operator
  \<^verbatim>\<open>None\<close> and value \<^verbatim>\<open>None\<close>; and whenever a token is left in a bracket block after name,
  operator and value are parsed and whitespace is skipped, \<^verbatim>\<open>parse_attribute_selector\<close>
  and the simple-selector parser that called it raise the \<^verbatim>\<open>SelectorError\<close> \<^verbatim>\<open>expected ]\<close>
  carrying that token: a node is returned only from an exhausted block.
\<close>

theorem attribute_selector_parsing:
  "(namespaces (Some pfx) = Some uri \<longrightarrow>
      parse_attribute_selector
        [IdentToken pfx lower_pfx, LiteralToken ''|'', IdentToken attr lower_attr,
         LiteralToken ''~='', StringToken v] namespaces =
      (Inr (AttributeSelector (Some uri) attr lower_attr (Some ''~='') (Some v)), [])) \<and>
   parse_attribute_selector [IdentToken attr lower_attr] namespaces =
     (Inr (AttributeSelector (Some []) attr lower_attr None None), []) \<and>
   (attribute_selector_parts content namespaces = (Inr parts, remaining) \<and>
    snd (skip_whitespace remaining) = nxt # rest \<longrightarrow>
      parse_attribute_selector content namespaces =
        (Inl (SelectorError (Some nxt) Expected_closing_bracket), rest) \<and>
      parse_simple_selector (SquareBracketsBlock content # tokens) namespaces =
        (Inl (SelectorError (Some nxt) Expected_closing_bracket), tokens)) \<and>
   (parse_attribute_selector content namespaces = (Inr node, leftover) \<longrightarrow> leftover = [])"
proof -
  have a: "parse_attribute_selector
        [IdentToken pfx lower_pfx, LiteralToken ''|'', IdentToken attr lower_attr,
         LiteralToken ''~='', StringToken v] namespaces =
      (Inr (AttributeSelector (Some uri) attr lower_attr (Some ''~='') (Some v)), [])"
    if "namespaces (Some pfx) = Some uri"
    using that
    by (simp add: parse_attribute_selector_def attribute_selector_parts_def skip_whitespace_def
        parse_qualified_name_def qualified_name_local_def tok_eq_def tok_in_def Let_def)
  have b: "parse_attribute_selector [IdentToken attr lower_attr] namespaces =
     (Inr (AttributeSelector (Some []) attr lower_attr None None), [])"
    by (simp add: parse_attribute_selector_def attribute_selector_parts_def skip_whitespace_def
        parse_qualified_name_def tok_eq_def Let_def)
  have c: "parse_simple_selector (SquareBracketsBlock content # tokens) namespaces =
        (Inl (SelectorError (Some nxt) Expected_closing_bracket), tokens)"
    if "parse_attribute_selector content namespaces =
        (Inl (SelectorError (Some nxt) Expected_closing_bracket), rest)"
    using that by (simp add: parse_simple_selector_def parse_simple_selector_with_def)
  show ?thesis
    using a b c parse_attribute_selector_trailing [of content namespaces parts remaining nxt rest]
      parse_attribute_selector_exhausts [of content namespaces node leftover]
    by blast
qed

lemma attribute_examples:
  "parse_attribute_selector
     [IdentToken ''ns'' ''ns'', LiteralToken ''|'', IdentToken ''attr'' ''attr'',
      LiteralToken ''~='', StringToken ''val'', WhitespaceToken, IdentToken ''i'' ''i'']
     (map_of [(Some ''ns'', ''http://example.org/ns'')]) =
   (Inl (SelectorError (Some (IdentToken ''i'' ''i'')) Expected_closing_bracket), [])"
  "attribute_selector_parts
     [IdentToken ''ns'' ''ns'', LiteralToken ''|'', IdentToken ''attr'' ''attr'',
      LiteralToken ''~='', StringToken ''val'', WhitespaceToken, IdentToken ''i'' ''i'']
     (map_of [(Some ''ns'', ''http://example.org/ns'')]) =
   (Inr (Some ''http://example.org/ns'', Some (''attr'', ''attr''), Some ''~='', Some ''val''),
    [WhitespaceToken, IdentToken ''i'' ''i''])"
  by code_simp+

theorem attribute_selector_parsing_witness:
  "parse_attribute_selector
     [IdentToken ''ns'' ''ns'', LiteralToken ''|'', IdentToken ''attr'' ''attr'',
      LiteralToken ''~='', StringToken ''val'']
     (map_of [(Some ''ns'', ''http://example.org/ns'')]) =
     (Inr (AttributeSelector (Some ''http://example.org/ns'') ''attr'' ''attr''
             (Some ''~='') (Some ''val'')), []) \<and>
   parse_attribute_selector [IdentToken ''attr'' ''attr'']
     (map_of [(Some ''ns'', ''http://example.org/ns'')]) =
     (Inr (AttributeSelector (Some []) ''attr'' ''attr'' None None), []) \<and>
   parse_simple_selector
     [SquareBracketsBlock
        [IdentToken ''ns'' ''ns'', LiteralToken ''|'', IdentToken ''attr'' ''attr'',
         LiteralToken ''~='', StringToken ''val'', WhitespaceToken, IdentToken ''i'' ''i''],
      LiteralToken '','']
     (map_of [(Some ''ns'', ''http://example.org/ns'')]) =
     (Inl (SelectorError (Some (IdentToken ''i'' ''i'')) Expected_closing_bracket),
      [LiteralToken '',''])"
  using attribute_selector_parsing
    [where namespaces = "map_of [(Some ''ns'', ''http://example.org/ns'')]"
       and pfx = "''ns''" and uri = "''http://example.org/ns''" and lower_pfx = "''ns''"
       and attr = "''attr''" and lower_attr = "''attr''" and v = "''val''"
       and content = "[IdentToken ''ns'' ''ns'', LiteralToken ''|'', IdentToken ''attr'' ''attr'',
         LiteralToken ''~='', StringToken ''val'', WhitespaceToken, IdentToken ''i'' ''i'']"
       and parts = "(Some ''http://example.org/ns'', Some (''attr'', ''attr''), Some ''~='',
         Some ''val'')"
       and remaining = "[WhitespaceToken, IdentToken ''i'' ''i'']"
       and nxt = "IdentToken ''i'' ''i''" and rest = "[]" and tokens = "[LiteralToken '','']"]
    attribute_examples(2)
  by (simp add: skip_whitespace_def)

section \<open>Left-deep trees\<close>

text \<open>
  A tree is left-deep when the right child of every \<open>CombinedSelector\<close> is a compound
  selector: all nesting is in the left child.
\<close>

fun left_deep :: "tree \<Rightarrow> bool" where
  "left_deep (CompoundSelector simple_selectors) = True"
| "left_deep (CombinedSelector left combinator right) =
     (left_deep left \<and>
      (case right of CompoundSelector s \<Rightarrow> True | CombinedSelector l c r \<Rightarrow> False))"

text \<open>
  A chain of type selectors is an identifier followed by steps, each a combinator and an
  identifier, written the way CSS serialises it (\<^verbatim>\<open>a b > c\<close>): whitespace for the
  descendant combinator, the combinator token between whitespace for the others.
  \<open>chain_tree\<close> is the tree the claim describes, folded from the left: each step puts the
  tree built so far on the left and the compound selector of its identifier on the right.
  The compound selector of an identifier is its local name, with the default namespace of
  the mapping when there is one.
\<close>

definition type_compound :: "namespaces \<Rightarrow> string \<Rightarrow> string \<Rightarrow> tree" where
  "type_compound namespaces v lv =
     CompoundSelector
       (LocalNameSelector v lv #
        (case namespaces None of None \<Rightarrow> [] | Some uri \<Rightarrow> [NamespaceSelector uri]))"

definition combinator_tokens :: "string \<Rightarrow> token list" where
  "combinator_tokens c =
     (if c = '' '' then [WhitespaceToken]
      else [WhitespaceToken, LiteralToken c, WhitespaceToken])"

fun chain_tokens :: "(string \<times> string \<times> string) list \<Rightarrow> token list" where
  "chain_tokens [] = []"
| "chain_tokens ((c, v, lv) # steps) = combinator_tokens c @ IdentToken v lv # chain_tokens steps"

fun chain_tree :: "namespaces \<Rightarrow> tree \<Rightarrow> (string \<times> string \<times> string) list \<Rightarrow> tree" where
  "chain_tree namespaces left [] = left"
| "chain_tree namespaces left ((c, v, lv) # steps) =
     chain_tree namespaces (CombinedSelector left c (type_compound namespaces v lv)) steps"

definition is_combinator :: "string \<Rightarrow> bool" where
  "is_combinator c = (c \<in> set ['' '', ''>'', ''+'', ''~''])"

lemma parse_compound_selector_with_Compound:
  "parse_compound_selector_with plc tokens namespaces = (Inr (t, pseudo), rest) \<Longrightarrow>
   \<exists>simple_selectors. t = CompoundSelector simple_selectors"
  unfolding parse_compound_selector_with_def
  by (auto split: prod.splits sum.splits if_splits)

lemma parse_selector_loop_with_left_deep:
  "parse_selector_loop_with plc tokens namespaces relative ic result pseudo = (Inr sel, rest) \<Longrightarrow>
   left_deep result \<Longrightarrow> left_deep (parsed_tree sel)"
proof (induction plc tokens namespaces relative ic result pseudo
    rule: parse_selector_loop_with.induct)
  case (1 plc tokens namespaces relative initial_combinator result pseudo)
  obtain ws tokens1 where p1: "skip_whitespace tokens = (ws, tokens1)"
    by (cases "skip_whitespace tokens")
  obtain has_whitespace tokens2 where p2: "skip_comments ws tokens1 = (has_whitespace, tokens2)"
    by (cases "skip_comments ws tokens1")
  show ?case
  proof (cases "pseudo \<noteq> None \<or> next_combinator has_whitespace tokens2 = None")
    case True
    with "1.prems" p1 p2 show ?thesis
      unfolding parse_selector_loop_with.simps [of plc tokens]
      by (auto simp: Let_def split: if_splits)
  next
    case False
    then obtain combinator tokens3 where
      p3: "next_combinator has_whitespace tokens2 = Some (combinator, tokens3)"
      and ps: "pseudo = None"
      by auto
    obtain r tokens4 where p4: "parse_compound_selector_with plc tokens3 namespaces = (r, tokens4)"
      by (cases "parse_compound_selector_with plc tokens3 namespaces")
    show ?thesis
    proof (cases r)
      case (Inl e)
      with "1.prems"(1) p1 p2 p3 p4 ps show ?thesis
        unfolding parse_selector_loop_with.simps [of plc tokens] by (simp add: Let_def)
    next
      case (Inr b)
      obtain compound pseudo1 where b: "b = (compound, pseudo1)" by (cases b)
      from p4 Inr b obtain s where c: "compound = CompoundSelector s"
        using parse_compound_selector_with_Compound by blast
      have l: "left_deep (CombinedSelector result combinator compound)"
        using "1.prems"(2) c by simp
      have "parse_selector_loop_with plc tokens4 namespaces relative initial_combinator
              (CombinedSelector result combinator compound) pseudo1 = (Inr sel, rest)"
        using "1.prems"(1) p1 p2 p3 p4 ps Inr b
        unfolding parse_selector_loop_with.simps [of plc tokens] by (simp add: Let_def)
      then show ?thesis
        using "1.IH" [OF p1 [symmetric] p2 [symmetric] refl refl _ p3 refl p4 [symmetric] Inr
            b [symmetric] _ l] ps
        by simp
    qed
  qed
qed

lemma parse_selector_with_left_deep:
  assumes "parse_selector_with plc tokens namespaces relative = (Inr sel, rest)"
  shows "left_deep (parsed_tree sel)"
proof -
  from assms obtain tokens2 ic result pseudo tokens3 where
    c: "parse_compound_selector_with plc tokens2 namespaces = (Inr (result, pseudo), tokens3)"
    and l: "parse_selector_loop_with plc tokens3 namespaces relative ic result pseudo = (Inr sel, rest)"
    unfolding parse_selector_with_def Let_def
    by (auto split: prod.splits sum.splits)
  from c obtain s where "result = CompoundSelector s"
    using parse_compound_selector_with_Compound by blast
  then have "left_deep result" by simp
  with l show ?thesis by (rule parse_selector_loop_with_left_deep)
qed

lemma parse_loop_with_left_deep:
  "list_all (\<lambda>sel. left_deep (parsed_tree sel))
     (fst (parse_loop_with plc tokens namespaces forgiving relative))"
proof (induction plc tokens namespaces forgiving relative rule: parse_loop_with.induct)
  case (1 plc tokens namespaces forgiving relative)
  show ?case
  proof (cases tokens)
    case Nil
    then show ?thesis
      unfolding parse_loop_with.simps [of plc tokens] by simp
  next
    case (Cons nxt tokens1)
    have n: "next_token tokens = (Some nxt, tokens1)" by (simp add: Cons)
    obtain r tokens2 where p: "parse_selector_with plc tokens1 namespaces relative = (r, tokens2)"
      by (cases "parse_selector_with plc tokens1 namespaces relative")
    show ?thesis
      using n p "1.IH"(2) [OF n [symmetric] refl _ p [symmetric]]
        "1.IH"(1) [OF n [symmetric] refl _ p [symmetric]]
        "1.IH"(3) [OF n [symmetric] refl]
        parse_selector_with_left_deep [of plc tokens1 namespaces relative _ tokens2]
      unfolding parse_loop_with.simps [of plc tokens]
      by (auto split: sum.splits simp: yield_then_def)
  qed
qed

lemma parse_left_deep:
  "list_all (\<lambda>sel. left_deep (parsed_tree sel))
     (fst (parse input namespaces forgiving relative))"
proof (cases "parse_selector input namespaces relative")
  case (Pair r tokens)
  then show ?thesis
    using parse_selector_with_left_deep [of parse_logical_combination input namespaces relative _ tokens]
      parse_loop_with_left_deep [of parse_logical_combination tokens namespaces forgiving relative]
    unfolding parse_eq
    by (auto simp: parse_selector_def parse_loop_def yield_then_def split: sum.splits)
qed

lemma parse_compound_selector_Compound:
  "parse_compound_selector tokens namespaces = (Inr (compound, pseudo), rest) \<Longrightarrow>
   \<exists>simple_selectors. compound = CompoundSelector simple_selectors"
  unfolding parse_compound_selector_def by (rule parse_compound_selector_with_Compound)

lemma chain_tokens_head:
  "chain_tokens steps = [] \<or> (\<exists>r. chain_tokens steps = WhitespaceToken # r)"
proof (cases steps)
  case Nil
  then show ?thesis by simp
next
  case (Cons step rest)
  obtain c v lv where "step = (c, v, lv)" by (cases step)
  with Cons show ?thesis by (cases "c = '' ''") (simp_all add: combinator_tokens_def)
qed

lemma parse_compound_loop_at_separator:
  assumes "R = [] \<or> (\<exists>r. R = WhitespaceToken # r)"
  shows "parse_compound_loop R namespaces acc = (Inr (acc, None), R)"
  using assms
  by (subst parse_compound_loop_eq)
     (auto simp: parse_simple_selector_def parse_simple_selector_with_def)

lemma parse_compound_selector_ident:
  assumes "R = [] \<or> (\<exists>r. R = WhitespaceToken # r)"
  shows "parse_compound_selector (IdentToken v lv # R) namespaces =
         (Inr (type_compound namespaces v lv, None), R)"
    and "parse_compound_selector (WhitespaceToken # IdentToken v lv # R) namespaces =
         (Inr (type_compound namespaces v lv, None), R)"
proof -
  have q: "parse_qualified_name (IdentToken v lv # R) namespaces False =
           (Inr (Some (namespaces None, Some (v, lv))), R)"
    using assms by (auto simp: parse_qualified_name_def tok_eq_def Let_def)
  have t: "parse_type_selector (IdentToken v lv # R) namespaces =
           (Inr (Some (LocalNameSelector v lv #
              (case namespaces None of None \<Rightarrow> [] | Some uri \<Rightarrow> [NamespaceSelector uri]))), R)"
    and t': "parse_type_selector (WhitespaceToken # IdentToken v lv # R) namespaces =
           (Inr (Some (LocalNameSelector v lv #
              (case namespaces None of None \<Rightarrow> [] | Some uri \<Rightarrow> [NamespaceSelector uri]))), R)"
    using q by (simp_all add: parse_type_selector_def skip_whitespace_def)
  show "parse_compound_selector (IdentToken v lv # R) namespaces =
         (Inr (type_compound namespaces v lv, None), R)"
    by (simp add: parse_compound_selector_eq t parse_compound_loop_at_separator [OF assms]
        type_compound_def)
  show "parse_compound_selector (WhitespaceToken # IdentToken v lv # R) namespaces =
         (Inr (type_compound namespaces v lv, None), R)"
    by (simp add: parse_compound_selector_eq t' parse_compound_loop_at_separator [OF assms]
        type_compound_def)
qed



lemma parse_selector_loop_chain:
  "list_all (\<lambda>step. is_combinator (fst step)) steps \<Longrightarrow>
   parse_selector_loop (chain_tokens steps) namespaces relative ic result None =
   (Inr (wrap_selector relative ic (chain_tree namespaces result steps) None), [])"
proof (induction steps arbitrary: result)
  case Nil
  show ?case
    using parse_selector_loop_return [OF skip_separators_Nil, of None]
    by (simp add: next_combinator_def)
next
  case (Cons step steps)
  obtain c v lv where step: "step = (c, v, lv)" by (cases step)
  let ?R = "chain_tokens steps"
  let ?next = "CombinedSelector result c (type_compound namespaces v lv)"
  have R: "?R = [] \<or> (\<exists>r. ?R = WhitespaceToken # r)" by (rule chain_tokens_head)
  from Cons.prems step have c: "is_combinator c" and rest: "list_all (\<lambda>step. is_combinator (fst step)) steps"
    by simp_all
  have IH: "parse_selector_loop ?R namespaces relative ic ?next None =
            (Inr (wrap_selector relative ic (chain_tree namespaces ?next steps) None), [])"
    using Cons.IH [OF rest] .
  show ?case
  proof (cases "c = '' ''")
    case True
    have s: "skip_separators (chain_tokens (step # steps)) = (True, IdentToken v lv # ?R)"
      using True by (simp add: step combinator_tokens_def skip_separators_whitespace)
    have n: "next_combinator True (IdentToken v lv # ?R) = Some ('' '', IdentToken v lv # ?R)"
      by (simp add: next_combinator_def tok_in_def)
    show ?thesis
      using parse_selector_loop_step [OF s n parse_compound_selector_ident(1) [OF R]] IH True
      by (simp add: step)
  next
    case False
    with c have cc: "c \<in> set [''>'', ''+'', ''~'']" by (auto simp: is_combinator_def)
    have s: "skip_separators (chain_tokens (step # steps)) =
             (True, LiteralToken c # WhitespaceToken # IdentToken v lv # ?R)"
      using False by (simp add: step combinator_tokens_def skip_separators_whitespace)
    have n: "next_combinator True (LiteralToken c # WhitespaceToken # IdentToken v lv # ?R) =
             Some (c, WhitespaceToken # IdentToken v lv # ?R)"
      using cc by (auto simp: next_combinator_def tok_in_def)
    show ?thesis
      using parse_selector_loop_step [OF s n parse_compound_selector_ident(2) [OF R]] IH
      by (simp add: step)
  qed
qed

lemma selector_start_ident:
  "selector_start relative (IdentToken v lv # R) =
   (if relative then '' '' else [], IdentToken v lv # R)"
  by (simp add: selector_start_def skip_whitespace_and_comment_def tok_in_def)

lemma wrap_selector_not_relative:
  "wrap_selector relative (if relative then c else d) result pseudo =
   wrap_selector relative c result pseudo"
  by (simp add: wrap_selector_def)

lemma parse_chain:
  assumes "list_all (\<lambda>step. is_combinator (fst step)) steps"
  shows "parse (IdentToken v lv # chain_tokens steps) namespaces forgiving relative =
         ([wrap_selector relative '' ''
             (chain_tree namespaces (type_compound namespaces v lv) steps) None], None)"
proof -
  have "parse_selector (IdentToken v lv # chain_tokens steps) namespaces relative =
        (Inr (wrap_selector relative '' ''
               (chain_tree namespaces (type_compound namespaces v lv) steps) None), [])"
    by (simp add: parse_selector_start selector_start_ident
        parse_compound_selector_ident(1) [OF chain_tokens_head]
        parse_selector_loop_chain [OF assms] wrap_selector_not_relative)
  moreover have "parse_loop [] namespaces forgiving relative = ([], None)"
    by (subst parse_loop_eq) simp
  ultimately show ?thesis by (simp add: parse_eq yield_then_def)
qed

text \<open>
  Claim C6. The combinator parser builds a left-deep tree. A round of the loop of
  \<^verbatim>\<open>parse_selector\<close> that finds a combinator and parses a compound selector behind it goes
  on with \<^verbatim>\<open>CombinedSelector(result, combinator, compound)\<close>: everything parsed so far is
  the left child, and the right child is the compound selector just parsed, a
  \<open>CompoundSelector\<close>; a round that finds no combinator returns the tree as it stands. So a
  chain of identifiers with any number of combinators parses to the tree folded from the
  left, \<^verbatim>\<open>a b > c\<close> to \<^verbatim>\<open>CombinedSelector(CombinedSelector(a, ' ', b), '>', c)\<close>, and in
  every selector the entry point yields each \<open>CombinedSelector\<close> has a compound selector
  on the right: never a right-nested tree like \<^verbatim>\<open>a (b > c)\<close>.
\<close>

theorem combinators_build_left_deep_tree:
  "(skip_separators tokens = (has_whitespace, after_separators) \<and>
    next_combinator has_whitespace after_separators = Some (combinator, after_combinator) \<and>
    parse_compound_selector after_combinator namespaces =
      (Inr (compound, pseudo), after_compound) \<longrightarrow>
      (\<exists>simple_selectors. compound = CompoundSelector simple_selectors) \<and>
      parse_selector_loop tokens namespaces relative initial_combinator result None =
      parse_selector_loop after_compound namespaces relative initial_combinator
        (CombinedSelector result combinator compound) pseudo) \<and>
   (skip_separators tokens = (has_whitespace, after_separators) \<and>
    next_combinator has_whitespace after_separators = None \<longrightarrow>
      parse_selector_loop tokens namespaces relative initial_combinator result None =
      (Inr (wrap_selector relative initial_combinator result None), after_separators)) \<and>
   (list_all (\<lambda>step. is_combinator (fst step)) steps \<longrightarrow>
      parse (IdentToken v lv # chain_tokens steps) namespaces forgiving relative =
      ([wrap_selector relative '' ''
          (chain_tree namespaces (type_compound namespaces v lv) steps) None], None)) \<and>
   list_all (\<lambda>sel. left_deep (parsed_tree sel))
     (fst (parse input namespaces forgiving relative))"
  using parse_selector_loop_step [of tokens has_whitespace after_separators combinator
      after_combinator namespaces compound pseudo after_compound relative initial_combinator
      result]
    parse_compound_selector_Compound [of after_combinator namespaces compound pseudo
      after_compound]
    parse_selector_loop_return [of tokens has_whitespace after_separators None namespaces
      relative initial_combinator result]
    parse_chain [of steps v lv namespaces forgiving relative]
    parse_left_deep [of input namespaces forgiving relative]
  by simp

theorem combinators_build_left_deep_tree_witness:
  "parse [IdentToken ''a'' ''a'', WhitespaceToken, IdentToken ''b'' ''b'', WhitespaceToken,
          LiteralToken ''>'', WhitespaceToken, IdentToken ''c'' ''c''] Map.empty False False =
   ([Selector_init
       (CombinedSelector
          (CombinedSelector (CompoundSelector [LocalNameSelector ''a'' ''a'']) '' ''
             (CompoundSelector [LocalNameSelector ''b'' ''b'']))
          ''>'' (CompoundSelector [LocalNameSelector ''c'' ''c''])) None], None) \<and>
   left_deep
     (CombinedSelector
        (CombinedSelector (CompoundSelector [LocalNameSelector ''a'' ''a'']) '' ''
           (CompoundSelector [LocalNameSelector ''b'' ''b'']))
        ''>'' (CompoundSelector [LocalNameSelector ''c'' ''c''])) \<and>
   \<not> left_deep
     (CombinedSelector (CompoundSelector [LocalNameSelector ''a'' ''a'']) '' ''
        (CombinedSelector (CompoundSelector [LocalNameSelector ''b'' ''b'']) ''>''
           (CompoundSelector [LocalNameSelector ''c'' ''c''])))"
  using combinators_build_left_deep_tree
    [where steps = "[('' '', ''b'', ''b''), (''>'', ''c'', ''c'')]" and v = "''a''"
       and lv = "''a''" and namespaces = Map.empty and forgiving = False and relative = False
       and input = "[]" and tokens = "[]" and has_whitespace = False
       and after_separators = "[]"]
  by (simp add: is_combinator_def combinator_tokens_def type_compound_def wrap_selector_def
      skip_separators_Nil next_combinator_def)

section \<open>A pseudo-element ends the selector\<close>

lemma next_combinator_None:
  "next_combinator has_whitespace tokens = None \<Longrightarrow>
   \<not> tok_in (peek tokens) [''>'', ''+'', ''~'']"
  by (cases tokens) (auto simp: next_combinator_def tok_in_def split: if_splits token.splits)

lemma parse_selector_loop_unconsumed:
  "parse_selector_loop_with plc tokens namespaces relative ic result pseudo = (Inr sel, rest) \<Longrightarrow>
   tok_in (peek rest) [''>'', ''+'', ''~''] \<Longrightarrow> pseudo_element sel \<noteq> None"
proof (induction plc tokens namespaces relative ic result pseudo
    rule: parse_selector_loop_with.induct)
  case (1 plc tokens namespaces relative initial_combinator result pseudo)
  obtain ws tokens1 where p1: "skip_whitespace tokens = (ws, tokens1)"
    by (cases "skip_whitespace tokens")
  obtain has_whitespace tokens2 where p2: "skip_comments ws tokens1 = (has_whitespace, tokens2)"
    by (cases "skip_comments ws tokens1")
  show ?case
  proof (cases "pseudo \<noteq> None \<or> next_combinator has_whitespace tokens2 = None")
    case True
    with "1.prems" p1 p2 show ?thesis
      unfolding parse_selector_loop_with.simps [of plc tokens]
      by (auto simp: Let_def dest: next_combinator_None split: if_splits)
  next
    case False
    then obtain combinator tokens3 where
      p3: "next_combinator has_whitespace tokens2 = Some (combinator, tokens3)"
      and ps: "pseudo = None"
      by auto
    obtain r tokens4 where p4: "parse_compound_selector_with plc tokens3 namespaces = (r, tokens4)"
      by (cases "parse_compound_selector_with plc tokens3 namespaces")
    show ?thesis
    proof (cases r)
      case (Inl e)
      with "1.prems"(1) p1 p2 p3 p4 ps show ?thesis
        unfolding parse_selector_loop_with.simps [of plc tokens] by (simp add: Let_def)
    next
      case (Inr b)
      obtain compound pseudo1 where b: "b = (compound, pseudo1)" by (cases b)
      have "parse_selector_loop_with plc tokens4 namespaces relative initial_combinator
              (CombinedSelector result combinator compound) pseudo1 = (Inr sel, rest)"
        using "1.prems"(1) p1 p2 p3 p4 ps Inr b
        unfolding parse_selector_loop_with.simps [of plc tokens] by (simp add: Let_def)
      then show ?thesis
        using "1.IH" [OF p1 [symmetric] p2 [symmetric] refl refl _ p3 refl p4 [symmetric] Inr
            b [symmetric] _ "1.prems"(2)] ps
        by simp
    qed
  qed
qed

lemma parse_selector_unconsumed:
  assumes "parse_selector tokens namespaces relative = (Inr sel, rest)"
    and "tok_in (peek rest) [''>'', ''+'', ''~'']"
  shows "pseudo_element sel \<noteq> None"
proof -
  from assms(1) obtain tokens3 ic result pseudo where
    "parse_selector_loop_with parse_logical_combination tokens3 namespaces relative ic result pseudo
       = (Inr sel, rest)"
    unfolding parse_selector_def parse_selector_with_def Let_def
    by (auto split: prod.splits sum.splits)
  then show ?thesis using assms(2) by (rule parse_selector_loop_unconsumed)
qed

lemma parse_strict_trailing:
  assumes "parse_selector tokens namespaces relative = (Inr sel, t # rest)"
    and "t \<noteq> LiteralToken '',''"
  shows "parse tokens namespaces False relative =
         ([sel], Some (SelectorError (Some t) Unexpected_type_token)) \<and>
         parse_loop (LiteralToken '','' # tokens) namespaces False relative =
         ([sel], Some (SelectorError (Some t) Unexpected_type_token))"
proof -
  have l: "parse_loop (t # rest) namespaces False relative =
           ([], Some (SelectorError (Some t) Unexpected_type_token))"
    using assms(2) by (subst parse_loop_eq) simp
  have "parse tokens namespaces False relative =
         ([sel], Some (SelectorError (Some t) Unexpected_type_token))"
    using assms(1) l by (simp add: parse_eq yield_then_def)
  moreover have "parse_loop (LiteralToken '','' # tokens) namespaces False relative =
         ([sel], Some (SelectorError (Some t) Unexpected_type_token))"
    using assms(1) l by (subst parse_loop_eq) (simp add: yield_then_def)
  ultimately show ?thesis by simp
qed

lemma parse_selector_loop_pseudo:
  "parse_selector_loop tokens namespaces relative ic result (Some pe) =
   (Inr (wrap_selector relative ic result (Some pe)), snd (skip_separators tokens))"
  by (rule parse_selector_loop_return [of tokens "fst (skip_separators tokens)"]) simp_all

lemma parse_selector_pseudo:
  assumes "parse_compound_selector (snd (selector_start relative input)) namespaces =
           (Inr (result, Some pe), tokens3)"
  shows "parse_selector input namespaces relative =
         (Inr (wrap_selector relative (fst (selector_start relative input)) result (Some pe)),
          snd (skip_separators tokens3))"
  using assms by (simp add: parse_selector_start parse_selector_loop_pseudo)

lemma parse_selector_loop_later_pseudo:
  assumes "skip_separators tokens = (has_whitespace, after_separators)"
    and "next_combinator has_whitespace after_separators = Some (combinator, after_combinator)"
    and "parse_compound_selector after_combinator namespaces =
           (Inr (compound, Some pe), after_compound)"
  shows "parse_selector_loop tokens namespaces relative ic result None =
         (Inr (wrap_selector relative ic (CombinedSelector result combinator compound) (Some pe)),
          snd (skip_separators after_compound))"
  using parse_selector_loop_step [OF assms] by (simp add: parse_selector_loop_pseudo)

text \<open>
  Claim C2. Once a compound selector has produced a pseudo-element, the loop of
  \<^verbatim>\<open>parse_selector\<close> returns the selector after skipping whitespace and comments and
  parses no further compound, whatever follows; so \<^verbatim>\<open>parse_selector\<close> stops behind the
  pseudo-element of its first compound selector, and a round of the loop whose compound
  selector has a pseudo-element is the last one: the selector returned combines the tree
  so far with that compound selector and carries the pseudo-element. Whatever \<^verbatim>\<open>parse_selector\<close> leaves at
  the head of the stream, other than a comma, makes the strict entry point yield the
  selector and raise the \<^verbatim>\<open>SelectorError\<close> that carries that token, in the first branch
  and in a branch after a comma alike: behind a pseudo-element that is the token of an
  explicit combinator or, for the descendant combinator, the token behind the whitespace.
  A combinator token \<^verbatim>\<open>>\<close>, \<^verbatim>\<open>+\<close> or \<^verbatim>\<open>~\<close> is left in the stream only behind a selector
  with a pseudo-element. \<^verbatim>\<open>a::before > b\<close> raises with the token \<^verbatim>\<open>>\<close>, and
  \<^verbatim>\<open>a::before b\<close> with the token \<^verbatim>\<open>b\<close>; in \<^verbatim>\<open>a > b::before c\<close> the loop entered behind
  \<^verbatim>\<open>a\<close> returns the selector \<^verbatim>\<open>a > b::before\<close> and leaves \<^verbatim>\<open>c\<close>.
\<close>

theorem pseudo_element_ends_selector:
  "parse_selector_loop tokens namespaces relative initial_combinator result (Some pe) =
     (Inr (wrap_selector relative initial_combinator result (Some pe)),
      snd (skip_separators tokens)) \<and>
   (parse_compound_selector (snd (selector_start relative input)) namespaces =
      (Inr (result, Some pe), remaining) \<longrightarrow>
    parse_selector input namespaces relative =
      (Inr (wrap_selector relative (fst (selector_start relative input)) result (Some pe)),
       snd (skip_separators remaining))) \<and>
   (skip_separators tokens = (has_whitespace, after_separators) \<and>
    next_combinator has_whitespace after_separators = Some (combinator, after_combinator) \<and>
    parse_compound_selector after_combinator namespaces =
      (Inr (compound, Some pe), after_compound) \<longrightarrow>
    parse_selector_loop tokens namespaces relative initial_combinator result None =
      (Inr (wrap_selector relative initial_combinator
              (CombinedSelector result combinator compound) (Some pe)),
       snd (skip_separators after_compound))) \<and>
   (parse_selector input namespaces relative = (Inr sel, t # rest) \<and>
    t \<noteq> LiteralToken '','' \<longrightarrow>
      parse input namespaces False relative =
        ([sel], Some (SelectorError (Some t) Unexpected_type_token)) \<and>
      parse_loop (LiteralToken '','' # input) namespaces False relative =
        ([sel], Some (SelectorError (Some t) Unexpected_type_token))) \<and>
   (parse_selector input namespaces relative = (Inr sel, LiteralToken c # rest) \<and>
    c \<in> set [''>'', ''+'', ''~''] \<longrightarrow> pseudo_element sel \<noteq> None)"
proof (intro conjI impI)
  show "parse_selector_loop tokens namespaces relative initial_combinator result (Some pe) =
     (Inr (wrap_selector relative initial_combinator result (Some pe)),
      snd (skip_separators tokens))"
    by (rule parse_selector_loop_pseudo)
next
  assume "parse_compound_selector (snd (selector_start relative input)) namespaces =
      (Inr (result, Some pe), remaining)"
  then show "parse_selector input namespaces relative =
      (Inr (wrap_selector relative (fst (selector_start relative input)) result (Some pe)),
       snd (skip_separators remaining))"
    by (rule parse_selector_pseudo)
next
  assume "skip_separators tokens = (has_whitespace, after_separators) \<and>
    next_combinator has_whitespace after_separators = Some (combinator, after_combinator) \<and>
    parse_compound_selector after_combinator namespaces =
      (Inr (compound, Some pe), after_compound)"
  then show "parse_selector_loop tokens namespaces relative initial_combinator result None =
      (Inr (wrap_selector relative initial_combinator
              (CombinedSelector result combinator compound) (Some pe)),
       snd (skip_separators after_compound))"
    using parse_selector_loop_later_pseudo
      [of tokens has_whitespace after_separators combinator after_combinator namespaces
          compound pe after_compound relative initial_combinator result]
    by simp
next
  assume a: "parse_selector input namespaces relative = (Inr sel, t # rest) \<and>
    t \<noteq> LiteralToken '',''"
  from a show "parse input namespaces False relative =
        ([sel], Some (SelectorError (Some t) Unexpected_type_token))"
    using parse_strict_trailing [of input namespaces relative sel t rest] by simp
  from a show "parse_loop (LiteralToken '','' # input) namespaces False relative =
        ([sel], Some (SelectorError (Some t) Unexpected_type_token))"
    using parse_strict_trailing [of input namespaces relative sel t rest] by simp
next
  assume a: "parse_selector input namespaces relative = (Inr sel, LiteralToken c # rest) \<and>
    c \<in> set [''>'', ''+'', ''~'']"
  then have "tok_in (peek (LiteralToken c # rest)) [''>'', ''+'', ''~'']"
    by (simp add: tok_in_def)
  with a show "pseudo_element sel \<noteq> None"
    using parse_selector_unconsumed [of input namespaces relative sel "LiteralToken c # rest"]
    by simp
qed

lemma a_before_then_b_compound:
  "parse_compound_selector
     (snd (selector_start False
        [IdentToken ''a'' ''a'', LiteralToken '':'', LiteralToken '':'',
         IdentToken ''before'' ''before'', WhitespaceToken, IdentToken ''b'' ''b'']))
     Map.empty =
   (Inr (CompoundSelector [LocalNameSelector ''a'' ''a''], Some ''before''),
    [WhitespaceToken, IdentToken ''b'' ''b''])"
  "snd (skip_separators [WhitespaceToken, IdentToken ''b'' ''b'']) = [IdentToken ''b'' ''b'']"
  "fst (selector_start False
        [IdentToken ''a'' ''a'', LiteralToken '':'', LiteralToken '':'',
         IdentToken ''before'' ''before'', WhitespaceToken, IdentToken ''b'' ''b'']) = []"
  by code_simp+

lemma a_before_child_b_compound:
  "parse_compound_selector
     (snd (selector_start False
        [IdentToken ''a'' ''a'', LiteralToken '':'', LiteralToken '':'',
         IdentToken ''before'' ''before'', WhitespaceToken, LiteralToken ''>'', WhitespaceToken,
         IdentToken ''b'' ''b'']))
     Map.empty =
   (Inr (CompoundSelector [LocalNameSelector ''a'' ''a''], Some ''before''),
    [WhitespaceToken, LiteralToken ''>'', WhitespaceToken, IdentToken ''b'' ''b''])"
  "snd (skip_separators
     [WhitespaceToken, LiteralToken ''>'', WhitespaceToken, IdentToken ''b'' ''b'']) =
   [LiteralToken ''>'', WhitespaceToken, IdentToken ''b'' ''b'']"
  "fst (selector_start False
        [IdentToken ''a'' ''a'', LiteralToken '':'', LiteralToken '':'',
         IdentToken ''before'' ''before'', WhitespaceToken, LiteralToken ''>'', WhitespaceToken,
         IdentToken ''b'' ''b'']) = []"
  by code_simp+

lemma a_child_b_before_c_round:
  "skip_separators
     [WhitespaceToken, LiteralToken ''>'', WhitespaceToken, IdentToken ''b'' ''b'',
      LiteralToken '':'', LiteralToken '':'', IdentToken ''before'' ''before'', WhitespaceToken,
      IdentToken ''c'' ''c''] =
   (True, [LiteralToken ''>'', WhitespaceToken, IdentToken ''b'' ''b'',
      LiteralToken '':'', LiteralToken '':'', IdentToken ''before'' ''before'', WhitespaceToken,
      IdentToken ''c'' ''c''])"
  "next_combinator True
     [LiteralToken ''>'', WhitespaceToken, IdentToken ''b'' ''b'',
      LiteralToken '':'', LiteralToken '':'', IdentToken ''before'' ''before'', WhitespaceToken,
      IdentToken ''c'' ''c''] =
   Some (''>'', [WhitespaceToken, IdentToken ''b'' ''b'',
      LiteralToken '':'', LiteralToken '':'', IdentToken ''before'' ''before'', WhitespaceToken,
      IdentToken ''c'' ''c''])"
  "parse_compound_selector
     [WhitespaceToken, IdentToken ''b'' ''b'',
      LiteralToken '':'', LiteralToken '':'', IdentToken ''before'' ''before'', WhitespaceToken,
      IdentToken ''c'' ''c''] Map.empty =
   (Inr (CompoundSelector [LocalNameSelector ''b'' ''b''], Some ''before''),
    [WhitespaceToken, IdentToken ''c'' ''c''])"
  "snd (skip_separators [WhitespaceToken, IdentToken ''c'' ''c'']) = [IdentToken ''c'' ''c'']"
  by code_simp+

theorem pseudo_element_ends_selector_witness:
  "parse
     [IdentToken ''a'' ''a'', LiteralToken '':'', LiteralToken '':'',
      IdentToken ''before'' ''before'', WhitespaceToken, LiteralToken ''>'', WhitespaceToken,
      IdentToken ''b'' ''b''] Map.empty False False =
   ([Selector (CompoundSelector [LocalNameSelector ''a'' ''a'']) (Some ''before'') (0, 0, 2)],
    Some (SelectorError (Some (LiteralToken ''>'')) Unexpected_type_token)) \<and>
   parse
     [IdentToken ''a'' ''a'', LiteralToken '':'', LiteralToken '':'',
      IdentToken ''before'' ''before'', WhitespaceToken, IdentToken ''b'' ''b'']
     Map.empty False False =
   ([Selector (CompoundSelector [LocalNameSelector ''a'' ''a'']) (Some ''before'') (0, 0, 2)],
    Some (SelectorError (Some (IdentToken ''b'' ''b'')) Unexpected_type_token)) \<and>
   parse_selector_loop
     [WhitespaceToken, LiteralToken ''>'', WhitespaceToken, IdentToken ''b'' ''b'',
      LiteralToken '':'', LiteralToken '':'', IdentToken ''before'' ''before'', WhitespaceToken,
      IdentToken ''c'' ''c''] Map.empty False []
     (CompoundSelector [LocalNameSelector ''a'' ''a'']) None =
   (Inr (Selector
           (CombinedSelector (CompoundSelector [LocalNameSelector ''a'' ''a'']) ''>''
              (CompoundSelector [LocalNameSelector ''b'' ''b'']))
           (Some ''before'') (0, 0, 3)),
    [IdentToken ''c'' ''c''])"
proof -
  let ?sel = "Selector (CompoundSelector [LocalNameSelector ''a'' ''a'']) (Some ''before'')
                (0, 0, 2)"
  have w: "wrap_selector False [] (CompoundSelector [LocalNameSelector ''a'' ''a''])
             (Some ''before'') = ?sel"
    by (simp add: wrap_selector_def Selector_init_def sum_columns_def)
  note thm1 = pseudo_element_ends_selector
    [where input = "[IdentToken ''a'' ''a'', LiteralToken '':'', LiteralToken '':'',
      IdentToken ''before'' ''before'', WhitespaceToken, LiteralToken ''>'', WhitespaceToken,
      IdentToken ''b'' ''b'']" and namespaces = Map.empty and relative = False
      and result = "CompoundSelector [LocalNameSelector ''a'' ''a'']" and pe = "''before''"
      and remaining = "[WhitespaceToken, LiteralToken ''>'', WhitespaceToken, IdentToken ''b'' ''b'']"
      and sel = ?sel and t = "LiteralToken ''>''"
      and rest = "[WhitespaceToken, IdentToken ''b'' ''b'']"]
  note thm2 = pseudo_element_ends_selector
    [where input = "[IdentToken ''a'' ''a'', LiteralToken '':'', LiteralToken '':'',
      IdentToken ''before'' ''before'', WhitespaceToken, IdentToken ''b'' ''b'']"
      and namespaces = Map.empty and relative = False
      and result = "CompoundSelector [LocalNameSelector ''a'' ''a'']" and pe = "''before''"
      and remaining = "[WhitespaceToken, IdentToken ''b'' ''b'']"
      and sel = ?sel and t = "IdentToken ''b'' ''b''" and rest = "[]"]
  have w3: "wrap_selector False []
              (CombinedSelector (CompoundSelector [LocalNameSelector ''a'' ''a'']) ''>''
                 (CompoundSelector [LocalNameSelector ''b'' ''b'']))
              (Some ''before'') =
            Selector
              (CombinedSelector (CompoundSelector [LocalNameSelector ''a'' ''a'']) ''>''
                 (CompoundSelector [LocalNameSelector ''b'' ''b'']))
              (Some ''before'') (0, 0, 3)"
    by (simp add: wrap_selector_def Selector_init_def sum_columns_def)
  note thm3 = pseudo_element_ends_selector
    [where tokens = "[WhitespaceToken, LiteralToken ''>'', WhitespaceToken, IdentToken ''b'' ''b'',
      LiteralToken '':'', LiteralToken '':'', IdentToken ''before'' ''before'', WhitespaceToken,
      IdentToken ''c'' ''c'']"
      and has_whitespace = True
      and after_separators = "[LiteralToken ''>'', WhitespaceToken, IdentToken ''b'' ''b'',
      LiteralToken '':'', LiteralToken '':'', IdentToken ''before'' ''before'', WhitespaceToken,
      IdentToken ''c'' ''c'']"
      and combinator = "''>''"
      and after_combinator = "[WhitespaceToken, IdentToken ''b'' ''b'',
      LiteralToken '':'', LiteralToken '':'', IdentToken ''before'' ''before'', WhitespaceToken,
      IdentToken ''c'' ''c'']"
      and namespaces = Map.empty
      and compound = "CompoundSelector [LocalNameSelector ''b'' ''b'']" and pe = "''before''"
      and after_compound = "[WhitespaceToken, IdentToken ''c'' ''c'']"
      and relative = False and initial_combinator = "[]"
      and result = "CompoundSelector [LocalNameSelector ''a'' ''a'']"]
  have first: "parse
     [IdentToken ''a'' ''a'', LiteralToken '':'', LiteralToken '':'',
      IdentToken ''before'' ''before'', WhitespaceToken, LiteralToken ''>'', WhitespaceToken,
      IdentToken ''b'' ''b''] Map.empty False False =
   ([?sel], Some (SelectorError (Some (LiteralToken ''>'')) Unexpected_type_token))"
    using thm1 a_before_child_b_compound w by simp
  have second: "parse
     [IdentToken ''a'' ''a'', LiteralToken '':'', LiteralToken '':'',
      IdentToken ''before'' ''before'', WhitespaceToken, IdentToken ''b'' ''b'']
     Map.empty False False =
   ([?sel], Some (SelectorError (Some (IdentToken ''b'' ''b'')) Unexpected_type_token))"
    using thm2 a_before_then_b_compound w by simp
  have third: "parse_selector_loop
     [WhitespaceToken, LiteralToken ''>'', WhitespaceToken, IdentToken ''b'' ''b'',
      LiteralToken '':'', LiteralToken '':'', IdentToken ''before'' ''before'', WhitespaceToken,
      IdentToken ''c'' ''c''] Map.empty False []
     (CompoundSelector [LocalNameSelector ''a'' ''a'']) None =
   (Inr (Selector
           (CombinedSelector (CompoundSelector [LocalNameSelector ''a'' ''a'']) ''>''
              (CompoundSelector [LocalNameSelector ''b'' ''b'']))
           (Some ''before'') (0, 0, 3)),
    [IdentToken ''c'' ''c''])"
    using thm3 a_child_b_before_c_round w3 by simp
  from first second third show ?thesis by simp
qed

section \<open>Forgiving selector lists\<close>

text \<open>
  In forgiving mode the two handlers of \<^verbatim>\<open>parse\<close> differ. The handler around the first
  branch returns from the generator: nothing is yielded, whatever follows the first comma.
  The handler inside the loop goes on from where the error left the stream: tokens are
  skipped one by one up to the next comma, and the branch behind it is parsed. (An error
  raised on a comma has consumed it, and the branch behind that comma is skipped with the
  rest.)
\<close>

lemma forgiving_first_branch_returns:
  assumes "parse_selector input namespaces relative = (Inl (SelectorError t msg), rest)"
  shows "parse input namespaces True relative = ([], None)"
  using assms by (simp add: parse_eq)

lemma forgiving_later_branch_continues:
  assumes "parse_selector tokens namespaces relative = (Inl (SelectorError t msg), rest)"
  shows "parse_loop (LiteralToken '','' # tokens) namespaces True relative =
         parse_loop rest namespaces True relative"
  using assms by (subst parse_loop_eq) simp

lemma forgiving_skips_to_comma:
  assumes "t \<noteq> LiteralToken '',''"
  shows "parse_loop (t # tokens) namespaces True relative =
         parse_loop tokens namespaces True relative"
  using assms by (subst parse_loop_eq) simp

text \<open>
  Claim C1, at the input \<^verbatim>\<open>???, #b\<close> in forgiving mode: the first branch is invalid, and
  the entry point yields nothing, where the claim has it yield the selector of \<^verbatim>\<open>#b\<close>.
  With the invalid branch in second place, \<^verbatim>\<open>.a, ???, #b\<close>, the forgiving parse yields
  exactly the selectors of \<^verbatim>\<open>.a\<close> and \<^verbatim>\<open>#b\<close>, and the strict parse yields \<^verbatim>\<open>.a\<close> and
  raises the first error.
\<close>

theorem forgiving_first_branch_invalid:
  "parse [LiteralToken ''?'', LiteralToken ''?'', LiteralToken ''?'', LiteralToken '','',
          WhitespaceToken, HashToken ''b'' True] Map.empty True False = ([], None) \<and>
   parse [LiteralToken ''.'', IdentToken ''a'' ''a'', LiteralToken '','', WhitespaceToken,
          LiteralToken ''?'', LiteralToken ''?'', LiteralToken ''?'', LiteralToken '','',
          WhitespaceToken, HashToken ''b'' True] Map.empty True False =
     ([Selector (CompoundSelector [ClassSelector ''a'']) None (0, 1, 0),
       Selector (CompoundSelector [IDSelector ''b'']) None (1, 0, 0)], None) \<and>
   parse [LiteralToken ''.'', IdentToken ''a'' ''a'', LiteralToken '','', WhitespaceToken,
          LiteralToken ''?'', LiteralToken ''?'', LiteralToken ''?'', LiteralToken '','',
          WhitespaceToken, HashToken ''b'' True] Map.empty False False =
     ([Selector (CompoundSelector [ClassSelector ''a'']) None (0, 1, 0)],
      Some (SelectorError (Some (LiteralToken ''?'')) Expected_compound_selector))"
  by code_simp

text \<open>The same two lists as the arguments of \<^verbatim>\<open>:is()\<close>.\<close>

lemma is_with_invalid_branch:
  "parse_logical_combination
     (FunctionBlock ''is'' ''is''
        [LiteralToken ''.'', IdentToken ''a'' ''a'', LiteralToken '','', WhitespaceToken,
         LiteralToken ''?'', LiteralToken ''?'', LiteralToken ''?'', LiteralToken '','',
         WhitespaceToken, HashToken ''b'' True]) Map.empty ''is'' =
   Inr (MatchesAnySelector
          [Selector (CompoundSelector [ClassSelector ''a'']) None (0, 1, 0),
           Selector (CompoundSelector [IDSelector ''b'']) None (1, 0, 0)])"
  "parse_logical_combination
     (FunctionBlock ''is'' ''is''
        [LiteralToken ''?'', LiteralToken ''?'', LiteralToken ''?'', LiteralToken '','',
         WhitespaceToken, HashToken ''b'' True]) Map.empty ''is'' =
   Inr (MatchesAnySelector [])"
  by code_simp+

text \<open>
  An error on the comma itself: in \<^verbatim>\<open>.a, ., #b\<close> the class name expected behind the dot
  is the comma, which the failing branch consumes, so \<^verbatim>\<open>#b\<close> is skipped as well.
\<close>

lemma forgiving_error_on_comma:
  "parse [LiteralToken ''.'', IdentToken ''a'' ''a'', LiteralToken '','', WhitespaceToken,
          LiteralToken ''.'', LiteralToken '','', WhitespaceToken, HashToken ''b'' True]
     Map.empty True False =
   ([Selector (CompoundSelector [ClassSelector ''a'']) None (0, 1, 0)], None)"
  by code_simp

section \<open>The arguments of \<^verbatim>\<open>:not()\<close>\<close>

text \<open>
  Where the parser stands when it calls a function, as relations between streams, each
  defined by the steps of the source. \<open>simple_selector_at\<close>: the loop of
  \<^verbatim>\<open>parse_compound_selector\<close>, entered at the first stream, calls
  \<^verbatim>\<open>parse_simple_selector\<close> at the second (at once, or after simple selectors that were
  parsed). \<open>compound_at\<close>: the loop of \<^verbatim>\<open>parse_selector\<close>, entered with no pseudo-element,
  calls \<^verbatim>\<open>parse_compound_selector\<close> at the second stream (behind the next combinator, or
  behind compound selectors that were parsed without a pseudo-element). \<open>selector_reaches\<close>:
  \<^verbatim>\<open>parse_selector\<close> on the first stream calls \<^verbatim>\<open>parse_simple_selector\<close> at the second, in
  its first compound selector or in a later one. \<open>branch_at\<close>: the strict entry point on
  the first stream calls \<^verbatim>\<open>parse_selector\<close> at the second, for the first branch or for a
  branch behind a comma that ends a branch parsed before.
\<close>

inductive simple_selector_at :: "namespaces \<Rightarrow> TokenStream \<Rightarrow> TokenStream \<Rightarrow> bool"
  for namespaces :: namespaces where
  first_simple: "simple_selector_at namespaces tokens tokens"
| later_simple:
    "parse_simple_selector tokens namespaces = (Inr (Some s, None), tokens1) \<Longrightarrow>
     simple_selector_at namespaces tokens1 p \<Longrightarrow>
     simple_selector_at namespaces tokens p"

code_pred simple_selector_at .

inductive compound_at :: "namespaces \<Rightarrow> TokenStream \<Rightarrow> TokenStream \<Rightarrow> bool"
  for namespaces :: namespaces where
  next_compound:
    "skip_separators tokens = (has_whitespace, tokens2) \<Longrightarrow>
     next_combinator has_whitespace tokens2 = Some (combinator, c) \<Longrightarrow>
     compound_at namespaces tokens c"
| later_compound:
    "skip_separators tokens = (has_whitespace, tokens2) \<Longrightarrow>
     next_combinator has_whitespace tokens2 = Some (combinator, tokens3) \<Longrightarrow>
     parse_compound_selector tokens3 namespaces = (Inr (compound, None), tokens4) \<Longrightarrow>
     compound_at namespaces tokens4 c \<Longrightarrow>
     compound_at namespaces tokens c"

code_pred compound_at .

inductive selector_reaches ::
  "namespaces \<Rightarrow> bool \<Rightarrow> TokenStream \<Rightarrow> TokenStream \<Rightarrow> bool"
  for namespaces :: namespaces and relative :: bool where
  in_first_compound:
    "parse_type_selector (snd (selector_start relative tokens)) namespaces =
       (Inr type_selectors, tokens1) \<Longrightarrow>
     simple_selector_at namespaces tokens1 p \<Longrightarrow>
     selector_reaches namespaces relative tokens p"
| in_later_compound:
    "parse_compound_selector (snd (selector_start relative tokens)) namespaces =
       (Inr (result, None), tokens3) \<Longrightarrow>
     compound_at namespaces tokens3 c \<Longrightarrow>
     parse_type_selector c namespaces = (Inr type_selectors, tokens1) \<Longrightarrow>
     simple_selector_at namespaces tokens1 p \<Longrightarrow>
     selector_reaches namespaces relative tokens p"

code_pred selector_reaches .

inductive loop_branch_at ::
  "namespaces \<Rightarrow> bool \<Rightarrow> TokenStream \<Rightarrow> TokenStream \<Rightarrow> bool"
  for namespaces :: namespaces and relative :: bool where
  after_comma: "loop_branch_at namespaces relative (LiteralToken '','' # b) b"
| after_branch:
    "parse_selector b' namespaces relative = (Inr sel, tokens) \<Longrightarrow>
     loop_branch_at namespaces relative tokens b \<Longrightarrow>
     loop_branch_at namespaces relative (LiteralToken '','' # b') b"

code_pred loop_branch_at .

inductive branch_at ::
  "namespaces \<Rightarrow> bool \<Rightarrow> TokenStream \<Rightarrow> TokenStream \<Rightarrow> bool"
  for namespaces :: namespaces and relative :: bool where
  first_branch: "branch_at namespaces relative input input"
| later_branch:
    "parse_selector input namespaces relative = (Inr sel, tokens) \<Longrightarrow>
     loop_branch_at namespaces relative tokens b \<Longrightarrow>
     branch_at namespaces relative input b"

code_pred branch_at .

lemma simple_selector_at_error:
  "simple_selector_at namespaces tokens p \<Longrightarrow>
   parse_simple_selector p namespaces = (Inl e, r) \<Longrightarrow>
   parse_compound_loop tokens namespaces acc = (Inl e, r)"
proof (induction arbitrary: acc rule: simple_selector_at.induct)
  case (first_simple tokens)
  then show ?case by (subst parse_compound_loop_eq) simp
next
  case (later_simple tokens s tokens1 p)
  then show ?case by (subst parse_compound_loop_eq) simp
qed

lemma compound_error:
  assumes "parse_type_selector c namespaces = (Inr type_selectors, tokens1)"
    and "simple_selector_at namespaces tokens1 p"
    and "parse_simple_selector p namespaces = (Inl e, r)"
  shows "parse_compound_selector c namespaces = (Inl e, r)"
  using assms(1) simple_selector_at_error [OF assms(2,3)]
  by (simp add: parse_compound_selector_eq)

lemma compound_at_error:
  "compound_at namespaces tokens c \<Longrightarrow>
   parse_compound_selector c namespaces = (Inl e, r) \<Longrightarrow>
   parse_selector_loop tokens namespaces relative ic result None = (Inl e, r)"
proof (induction arbitrary: result rule: compound_at.induct)
  case (next_compound tokens has_whitespace tokens2 combinator c)
  then show ?case by (rule parse_selector_loop_error)
next
  case (later_compound tokens has_whitespace tokens2 combinator tokens3 compound tokens4 c)
  show ?case
    using parse_selector_loop_step [OF later_compound.hyps(1,2,3)]
      later_compound.IH [OF later_compound.prems]
    by simp
qed

lemma selector_reaches_error:
  assumes "selector_reaches namespaces relative tokens p"
    and "parse_simple_selector p namespaces = (Inl e, r)"
  shows "parse_selector tokens namespaces relative = (Inl e, r)"
  using assms
proof (cases rule: selector_reaches.cases)
  case (in_first_compound type_selectors tokens1)
  then have "parse_compound_selector (snd (selector_start relative tokens)) namespaces = (Inl e, r)"
    using assms(2) by (intro compound_error)
  then show ?thesis by (simp add: parse_selector_start)
next
  case (in_later_compound result tokens3 c type_selectors tokens1)
  then have "parse_compound_selector c namespaces = (Inl e, r)"
    using assms(2) by (intro compound_error)
  with in_later_compound(2)
  have "parse_selector_loop tokens3 namespaces relative (fst (selector_start relative tokens))
          result None = (Inl e, r)"
    by (rule compound_at_error)
  with in_later_compound(1) show ?thesis by (simp add: parse_selector_start)
qed

lemma loop_branch_at_error:
  "loop_branch_at namespaces relative tokens b \<Longrightarrow>
   parse_selector b namespaces relative = (Inl e, r) \<Longrightarrow>
   snd (parse_loop tokens namespaces False relative) = Some e"
proof (induction rule: loop_branch_at.induct)
  case (after_comma b)
  then show ?case by (subst parse_loop_eq) simp
next
  case (after_branch b' sel tokens b)
  then show ?case by (subst parse_loop_eq) (simp add: yield_then_def)
qed

lemma branch_at_error:
  assumes "branch_at namespaces relative input b"
    and "parse_selector b namespaces relative = (Inl e, r)"
  shows "snd (parse input namespaces False relative) = Some e"
  using assms
proof (cases rule: branch_at.cases)
  case first_branch
  with assms(2) show ?thesis by (simp add: parse_eq)
next
  case (later_branch sel tokens)
  with loop_branch_at_error [OF later_branch(2) assms(2)] show ?thesis
    by (simp add: parse_eq yield_then_def)
qed

lemma forgiving_resumes_at_comma:
  "parse_loop tokens namespaces True relative =
   parse_loop (dropWhile (\<lambda>t. t \<noteq> LiteralToken '','') tokens) namespaces True relative"
  by (induction tokens) (simp_all add: forgiving_skips_to_comma)

lemma parse_simple_selector_not:
  "parse_simple_selector (LiteralToken '':'' # FunctionBlock n ''not'' arguments # rest)
     namespaces =
   (case parse_logical_combination (FunctionBlock n ''not'' arguments) namespaces ''not'' of
      Inl e \<Rightarrow> (Inl e, rest)
    | Inr s \<Rightarrow> (Inr (Some s, None), rest))"
  by (simp add: parse_simple_selector_def parse_simple_selector_with_def tok_eq_def)

lemma selector_reaches_at_start:
  "selector_reaches namespaces relative
     (LiteralToken '':'' # FunctionBlock n ''not'' arguments # rest)
     (LiteralToken '':'' # FunctionBlock n ''not'' arguments # rest)"
proof -
  have s: "snd (selector_start relative
             (LiteralToken '':'' # FunctionBlock n ''not'' arguments # rest)) =
           LiteralToken '':'' # FunctionBlock n ''not'' arguments # rest"
    by (simp add: selector_start_def skip_whitespace_and_comment_def tok_in_def Let_def)
  have "parse_type_selector (LiteralToken '':'' # FunctionBlock n ''not'' arguments # rest)
          namespaces =
        (Inr None, LiteralToken '':'' # FunctionBlock n ''not'' arguments # rest)"
    by (simp add: parse_type_selector_def parse_qualified_name_def skip_whitespace_def)
  then show ?thesis
    using first_simple by (intro in_first_compound) (simp_all add: s)
qed

text \<open>
  Claim C4, as the source has it. The argument list of \<^verbatim>\<open>:not()\<close> is parsed in strict
  mode wherever \<^verbatim>\<open>:not()\<close> stands, also inside a forgiving context such as \<^verbatim>\<open>:is()\<close>. When
  a comma-branch of the argument list is invalid, so that the strict parse of the arguments
  raises an error: \<^verbatim>\<open>parse_logical_combination\<close> raises that error instead of dropping the
  branch from the list of the \<open>NegationSelector\<close>; the parse of every selector in which the
  parser reaches the \<^verbatim>\<open>:not()\<close> raises it, leaving the stream behind the \<^verbatim>\<open>:not()\<close>; and
  the strict entry point fails with it, whichever branch of its list the selector is. A
  forgiving parse whose loop meets the selector as a branch behind a comma catches the
  error when it is a \<^verbatim>\<open>SelectorError\<close>: that branch yields nothing, and the loop goes on
  exactly as it does from the next comma behind the \<^verbatim>\<open>:not()\<close>. An error that is no
  \<^verbatim>\<open>SelectorError\<close> leaves the forgiving parse too.
\<close>

theorem not_arguments_are_strict:
  assumes "parse arguments namespaces False False = (yielded, Some e)"
    and "selector_reaches namespaces relative tokens
           (LiteralToken '':'' # FunctionBlock n ''not'' arguments # rest)"
  shows "parse_logical_combination (FunctionBlock n ''not'' arguments) namespaces ''not'' = Inl e \<and>
         parse_selector tokens namespaces relative = (Inl e, rest) \<and>
         (branch_at namespaces relative input tokens \<longrightarrow>
            snd (parse input namespaces False relative) = Some e) \<and>
         (if is_SelectorError e
          then parse_loop (LiteralToken '','' # tokens) namespaces True relative =
               parse_loop (dropWhile (\<lambda>t. t \<noteq> LiteralToken '','') rest) namespaces True relative
          else parse_loop (LiteralToken '','' # tokens) namespaces True relative = ([], Some e) \<and>
               parse tokens namespaces True relative = ([], Some e))"
proof -
  have 1: "parse_logical_combination (FunctionBlock n ''not'' arguments) namespaces ''not'' = Inl e"
    using assms(1) by (simp add: parse_logical_combination_eq)
  then have "parse_simple_selector
       (LiteralToken '':'' # FunctionBlock n ''not'' arguments # rest) namespaces = (Inl e, rest)"
    by (simp add: parse_simple_selector_not)
  with assms(2) have 2: "parse_selector tokens namespaces relative = (Inl e, rest)"
    by (rule selector_reaches_error)
  have 3: "snd (parse input namespaces False relative) = Some e"
    if "branch_at namespaces relative input tokens"
    using that 2 by (rule branch_at_error)
  have 4: "parse_loop (LiteralToken '','' # tokens) namespaces True relative =
           parse_loop (dropWhile (\<lambda>t. t \<noteq> LiteralToken '','') rest) namespaces True relative"
    if "is_SelectorError e"
  proof -
    from that obtain t msg where "e = SelectorError t msg" by (cases e) simp_all
    with 2 have "parse_loop (LiteralToken '','' # tokens) namespaces True relative =
                 parse_loop rest namespaces True relative"
      by (simp add: forgiving_later_branch_continues)
    then show ?thesis using forgiving_resumes_at_comma [of rest namespaces relative] by simp
  qed
  have 5: "parse_loop (LiteralToken '','' # tokens) namespaces True relative = ([], Some e) \<and>
           parse tokens namespaces True relative = ([], Some e)"
    if "\<not> is_SelectorError e"
    using that 2 by (simp add: parse_eq) (subst parse_loop_eq, simp)
  show ?thesis using 1 2 3 4 5 by simp
qed

lemma invalid_not_branch:
  "parse [LiteralToken ''?'', LiteralToken ''?'', LiteralToken ''?''] Map.empty False False =
   ([], Some (SelectorError (Some (LiteralToken ''?'')) Expected_compound_selector))"
  by code_simp

text \<open>
  The list \<^verbatim>\<open>.x, a > b.c:not(???), #d\<close>: the \<^verbatim>\<open>:not()\<close> stands in the second branch, in
  its second compound selector, behind a class selector.
\<close>

definition not_token :: token where
  "not_token =
     FunctionBlock ''not'' ''not'' [LiteralToken ''?'', LiteralToken ''?'', LiteralToken ''?'']"

definition second_branch :: "token list" where
  "second_branch =
     [WhitespaceToken, IdentToken ''a'' ''a'', WhitespaceToken, LiteralToken ''>'',
      WhitespaceToken, IdentToken ''b'' ''b'', LiteralToken ''.'', IdentToken ''c'' ''c'',
      LiteralToken '':'', not_token, LiteralToken '','', WhitespaceToken, HashToken ''d'' True]"

definition whole_list :: "token list" where
  "whole_list = LiteralToken ''.'' # IdentToken ''x'' ''x'' # LiteralToken '','' # second_branch"

lemma second_branch_steps:
  "parse_compound_selector (snd (selector_start False second_branch)) Map.empty =
     (Inr (CompoundSelector [LocalNameSelector ''a'' ''a''], None),
      [WhitespaceToken, LiteralToken ''>'', WhitespaceToken, IdentToken ''b'' ''b'',
       LiteralToken ''.'', IdentToken ''c'' ''c'', LiteralToken '':'', not_token,
       LiteralToken '','', WhitespaceToken, HashToken ''d'' True])"
  "skip_separators
     [WhitespaceToken, LiteralToken ''>'', WhitespaceToken, IdentToken ''b'' ''b'',
      LiteralToken ''.'', IdentToken ''c'' ''c'', LiteralToken '':'', not_token,
      LiteralToken '','', WhitespaceToken, HashToken ''d'' True] =
     (True,
      [LiteralToken ''>'', WhitespaceToken, IdentToken ''b'' ''b'', LiteralToken ''.'',
       IdentToken ''c'' ''c'', LiteralToken '':'', not_token, LiteralToken '','',
       WhitespaceToken, HashToken ''d'' True])"
  "next_combinator True
     [LiteralToken ''>'', WhitespaceToken, IdentToken ''b'' ''b'', LiteralToken ''.'',
      IdentToken ''c'' ''c'', LiteralToken '':'', not_token, LiteralToken '','',
      WhitespaceToken, HashToken ''d'' True] =
     Some (''>'',
       [WhitespaceToken, IdentToken ''b'' ''b'', LiteralToken ''.'', IdentToken ''c'' ''c'',
        LiteralToken '':'', not_token, LiteralToken '','', WhitespaceToken,
        HashToken ''d'' True])"
  "parse_type_selector
     [WhitespaceToken, IdentToken ''b'' ''b'', LiteralToken ''.'', IdentToken ''c'' ''c'',
      LiteralToken '':'', not_token, LiteralToken '','', WhitespaceToken, HashToken ''d'' True]
     Map.empty =
     (Inr (Some [LocalNameSelector ''b'' ''b'']),
      [LiteralToken ''.'', IdentToken ''c'' ''c'', LiteralToken '':'', not_token,
       LiteralToken '','', WhitespaceToken, HashToken ''d'' True])"
  "parse_simple_selector
     [LiteralToken ''.'', IdentToken ''c'' ''c'', LiteralToken '':'', not_token,
      LiteralToken '','', WhitespaceToken, HashToken ''d'' True] Map.empty =
     (Inr (Some (ClassSelector ''c''), None),
      [LiteralToken '':'', not_token, LiteralToken '','', WhitespaceToken, HashToken ''d'' True])"
  by code_simp+

lemma second_branch_reaches_not:
  "selector_reaches Map.empty False second_branch
     (LiteralToken '':'' # not_token # [LiteralToken '','', WhitespaceToken, HashToken ''d'' True])"
  by (rule in_later_compound
        [OF second_branch_steps(1)
            next_compound [OF second_branch_steps(2) second_branch_steps(3)]
            second_branch_steps(4)
            later_simple [OF second_branch_steps(5) first_simple]])

lemma first_branch_selector:
  "parse_selector whole_list Map.empty False =
   (Inr (Selector (CompoundSelector [ClassSelector ''x'']) None (0, 1, 0)),
    LiteralToken '','' # second_branch)"
  by code_simp

lemma second_branch_at: "branch_at Map.empty False whole_list second_branch"
  by (rule later_branch [OF first_branch_selector after_comma])

lemma d_branch:
  "parse_loop [LiteralToken '','', WhitespaceToken, HashToken ''d'' True] Map.empty True False =
   ([Selector (CompoundSelector [IDSelector ''d'']) None (1, 0, 0)], None)"
  by code_simp

theorem not_arguments_are_strict_witness:
  "parse_logical_combination not_token Map.empty ''not'' =
     Inl (SelectorError (Some (LiteralToken ''?'')) Expected_compound_selector) \<and>
   parse_selector second_branch Map.empty False =
     (Inl (SelectorError (Some (LiteralToken ''?'')) Expected_compound_selector),
      [LiteralToken '','', WhitespaceToken, HashToken ''d'' True]) \<and>
   snd (parse whole_list Map.empty False False) =
     Some (SelectorError (Some (LiteralToken ''?'')) Expected_compound_selector) \<and>
   parse_loop (LiteralToken '','' # second_branch) Map.empty True False =
     ([Selector (CompoundSelector [IDSelector ''d'']) None (1, 0, 0)], None)"
  using not_arguments_are_strict
    [OF invalid_not_branch second_branch_reaches_not [unfolded not_token_def],
     of whole_list]
    second_branch_at d_branch
  by (simp add: not_token_def)

lemma whole_list_forgiving:
  "parse whole_list Map.empty True False =
   ([Selector (CompoundSelector [ClassSelector ''x'']) None (0, 1, 0),
     Selector (CompoundSelector [IDSelector ''d'']) None (1, 0, 0)], None)"
  by code_simp

text \<open>
  The claim as stated, that the whole enclosing parse fails also inside a forgiving
  context, does not hold: the argument of \<^verbatim>\<open>:not()\<close> in \<^verbatim>\<open>:is(:not(???))\<close> is invalid, and
  the strict parse of the whole selector succeeds, with an empty \<open>MatchesAnySelector\<close>.
\<close>

theorem not_inside_is_counterexample:
  "parse_logical_combination
     (FunctionBlock ''not'' ''not'' [LiteralToken ''?'', LiteralToken ''?'', LiteralToken ''?''])
     Map.empty ''not'' =
     Inl (SelectorError (Some (LiteralToken ''?'')) Expected_compound_selector) \<and>
   parse [LiteralToken '':'',
          FunctionBlock ''is'' ''is''
            [LiteralToken '':'',
             FunctionBlock ''not'' ''not''
               [LiteralToken ''?'', LiteralToken ''?'', LiteralToken ''?'']]]
     Map.empty False False =
     ([Selector (CompoundSelector [MatchesAnySelector []]) None (0, 0, 0)], None)"
  by code_simp

text \<open>In a later branch of \<^verbatim>\<open>:is()\<close> the branch with the \<^verbatim>\<open>:not()\<close> is dropped alone.\<close>

lemma not_in_later_branch_of_is:
  "parse [LiteralToken '':'',
          FunctionBlock ''is'' ''is''
            [LiteralToken ''.'', IdentToken ''a'' ''a'', LiteralToken '','', WhitespaceToken,
             LiteralToken '':'',
             FunctionBlock ''not'' ''not''
               [LiteralToken ''?'', LiteralToken ''?'', LiteralToken ''?''],
             LiteralToken '','', WhitespaceToken, HashToken ''b'' True]]
     Map.empty False False =
     ([Selector
         (CompoundSelector
            [MatchesAnySelector
               [Selector (CompoundSelector [ClassSelector ''a'']) None (0, 1, 0),
                Selector (CompoundSelector [IDSelector ''b'']) None (1, 0, 0)]])
         None (1, 0, 0)], None)"
  by code_simp

end
